theory Spec2Isabelle
  imports Main "HOL-Library.Word"
begin

unbundle bit_operations_syntax

section \<open>Data model of kvikdos.c\<close>

text \<open>
  The development follows the second (later) revision of \<^verbatim>\<open>kvikdos.c\<close>, lines 216--565
  of the source file: the one with the PSP, the command line tail and the INT 21h services.
  It is compiled with \<^verbatim>\<open>DEBUG\<close> equal to 0 (the default of the \<^verbatim>\<open>#ifndef\<close>), so the
  \<^verbatim>\<open>if (DEBUG)\<close> statements do nothing.
\<close>

type_synonym byte = "8 word"

text \<open>
  Host memory reachable from the pointer \<^verbatim>\<open>mem\<close>, addressed by the byte offset from
  \<^verbatim>\<open>mem\<close>. The arena that \<^verbatim>\<open>mmap\<close> returned is the offsets below \<^verbatim>\<open>MEM_SIZE\<close>.
\<close>

type_synonym memory = "nat \<Rightarrow> byte"

definition MEM_SIZE :: nat where
  "MEM_SIZE = push_bit 20 2"

definition BASE_PARA :: nat where
  "BASE_PARA = 0x100"

text \<open>
  The fields of \<^verbatim>\<open>struct kvm_segment\<close>, \<^verbatim>\<open>struct kvm_sregs\<close> and \<^verbatim>\<open>struct kvm_regs\<close>
  (declared in \<^verbatim>\<open>linux/kvm.h\<close>) that the program reads or writes: a selector is a
  \<^verbatim>\<open>__u16\<close>, a base and every general register a \<^verbatim>\<open>__u64\<close>.
\<close>

record kvm_segment =
  selector :: "16 word"
  base :: "64 word"

record kvm_sregs =
  cs :: kvm_segment
  ds :: kvm_segment
  es :: kvm_segment
  fs :: kvm_segment
  gs :: kvm_segment
  ss :: kvm_segment

record kvm_regs =
  rax :: "64 word"
  rbx :: "64 word"
  rcx :: "64 word"
  rdx :: "64 word"
  rsp :: "64 word"
  rip :: "64 word"
  rflags :: "64 word"

text \<open>
  \<^verbatim>\<open>*(unsigned short*)&regs.r = v\<close> and \<^verbatim>\<open>*(unsigned*)&regs.r = v\<close> on the little-endian
  host: the low 16 (32) bits of the 64-bit register are replaced, the rest is kept.
\<close>

definition low16 :: "64 word \<Rightarrow> 16 word" where
  "low16 r = ucast r"

definition set_low16 :: "64 word \<Rightarrow> 16 word \<Rightarrow> 64 word" where
  "set_low16 r v = (r AND NOT (mask 16)) OR ucast v"

definition low32 :: "64 word \<Rightarrow> 32 word" where
  "low32 r = ucast r"

definition set_low32 :: "64 word \<Rightarrow> 32 word \<Rightarrow> 64 word" where
  "set_low32 r v = (r AND NOT (mask 32)) OR ucast v"

text \<open>The carry flag is bit 0 of FLAGS.\<close>

definition CF :: "kvm_regs \<Rightarrow> bool" where
  "CF regs = bit (rflags regs) 0"

text \<open>\<^verbatim>\<open>(unsigned)sregs.name.selector << 4\<close>, a 32-bit value.\<close>

definition seg_ofs :: "kvm_segment \<Rightarrow> 32 word" where
  "seg_ofs s = push_bit 4 (ucast (selector s))"

text \<open>
  \<^verbatim>\<open>SET_SEGMENT_REG(name, para_value)\<close>, on one segment: the selector is assigned, and the
  base is the assigned selector (promoted to \<^verbatim>\<open>int\<close>) shifted left by 4.
\<close>

definition SET_SEGMENT_REG :: "kvm_segment \<Rightarrow> 16 word \<Rightarrow> kvm_segment" where
  "SET_SEGMENT_REG s para_value = s\<lparr>selector := para_value, base := push_bit 4 (ucast para_value)\<rparr>"

text \<open>An \<^verbatim>\<open>unsigned short\<close> read through a pointer into \<^verbatim>\<open>mem\<close> (little-endian).\<close>

definition read16 :: "memory \<Rightarrow> nat \<Rightarrow> 16 word" where
  "read16 mem a = ucast (mem a) OR push_bit 8 (ucast (mem (a + 1)))"

text \<open>\<^verbatim>\<open>memcpy(mem + a, bs, length bs)\<close>, and what a host \<^verbatim>\<open>read\<close> stores at \<^verbatim>\<open>mem + a\<close>.\<close>

primrec memcpy_to :: "memory \<Rightarrow> nat \<Rightarrow> byte list \<Rightarrow> memory" where
  "memcpy_to mem a [] = mem"
| "memcpy_to mem a (b # bs) = memcpy_to (mem(a := b)) (a + 1) bs"

section \<open>The exit dispatcher\<close>

text \<open>
  What the host does for the guest, in program order: \<^verbatim>\<open>write(fd, &c, 1)\<close> of a local
  byte, \<^verbatim>\<open>write(fd, mem + a, n)\<close> and \<^verbatim>\<open>read(fd, mem + a, n)\<close> on guest memory, and a
  \<^verbatim>\<open>fprintf(stderr, ...)\<close> diagnostic.
\<close>

datatype host_io =
  WriteByte nat byte
| WriteMem nat nat nat
| ReadMem nat nat nat
| Diag string

text \<open>
  A \<^verbatim>\<open>Diag\<close> carries the format string of the \<^verbatim>\<open>fprintf\<close> without its final newline.
  \<^verbatim>\<open>fflush(stdout)\<close>, \<^verbatim>\<open>sleep(1)\<close> and \<^verbatim>\<open>close(kvm_fd)\<close> leave no entry.
\<close>

text \<open>
  The environment of one dispatch: the value the host \<^verbatim>\<open>read\<close> or \<^verbatim>\<open>write\<close> call
  of the AH=0x3F or AH=0x40 handler returns (the \<^verbatim>\<open>int got\<close>), and the bytes a \<^verbatim>\<open>read\<close>
  has available.
\<close>

record host =
  io_ret :: int
  io_input :: "byte list"

text \<open>How a handler ends: \<^verbatim>\<open>exit(n)\<close> or \<^verbatim>\<open>goto exit\<close>, or it falls to the interrupt return.\<close>

datatype handled =
  Exit nat
| Continue kvm_regs memory

text \<open>How the handling of one VM exit ends.\<close>

datatype outcome =
  Terminated nat
| Resume kvm_sregs kvm_regs memory
| Rerun

text \<open>
  The loop of the AH=0x09 handler (lines 523--530): \<^verbatim>\<open>p\<close> is the offset of \<^verbatim>\<open>DS:0\<close>,
  \<^verbatim>\<open>dx\<close> the \<^verbatim>\<open>unsigned short\<close> index. \<^verbatim>\<open>None\<close> is the fatal wrap of \<^verbatim>\<open>dx\<close> to 0.
\<close>

function print_scan :: "memory \<Rightarrow> nat \<Rightarrow> 16 word \<Rightarrow> 16 word option" where
  "print_scan mem p dx =
     (if mem (p + unat dx) = 0x24 then Some dx
      else if dx + 1 = 0 then None
      else print_scan mem p (dx + 1))"
  by pat_completeness auto
termination
proof (relation "measure (\<lambda>(mem, p, dx). 2 ^ 16 - unat dx)")
  show "wf (measure (\<lambda>(mem :: memory, p :: nat, dx :: 16 word). 2 ^ 16 - unat dx))"
    by simp
next
  fix mem :: memory and p :: nat and dx :: "16 word"
  assume "dx + 1 \<noteq> 0"
  then have "unat (dx + 1) = Suc (unat dx)"
    using unatSuc [of dx] by (simp add: add.commute)
  moreover have "unat (dx + 1) < 2 ^ 16"
    using unsigned_less [of "dx + 1", where 'a = nat] by simp
  ultimately show "((mem, p, dx + 1), (mem, p, dx)) \<in> measure (\<lambda>(mem, p, dx). 2 ^ 16 - unat dx)"
    by simp
qed

declare print_scan.simps [simp del]

text \<open>Lines 450--455: the test for the magic interrupt table, and the decoded values.\<close>

definition is_magic_hlt :: "kvm_sregs \<Rightarrow> kvm_regs \<Rightarrow> bool" where
  "is_magic_hlt sregs regs \<longleftrightarrow>
     (ucast (selector (cs sregs)) :: 32 word) = 0x40 \<and> low32 (rip regs) - 1 < 0x100"

definition int_num_of :: "kvm_regs \<Rightarrow> byte" where
  "int_num_of regs = ucast ((low32 (rip regs) - 1) AND 0xff)"

definition ah_of :: "kvm_regs \<Rightarrow> byte" where
  "ah_of regs = ucast (drop_bit 8 (low32 (rax regs)) AND 0xff)"

text \<open>\<^verbatim>\<open>(char)regs.rax\<close> and \<^verbatim>\<open>(unsigned char)regs.rdx\<close>: the byte \<^verbatim>\<open>c\<close> of the output services.\<close>

definition al_of :: "kvm_regs \<Rightarrow> byte" where
  "al_of regs = ucast (rax regs)"

definition dl_of :: "kvm_regs \<Rightarrow> byte" where
  "dl_of regs = ucast (rdx regs)"

text \<open>The offset of \<^verbatim>\<open>csip_ptr\<close> from \<^verbatim>\<open>mem\<close> (line 452).\<close>

definition csip_ofs :: "kvm_sregs \<Rightarrow> kvm_regs \<Rightarrow> nat" where
  "csip_ofs sregs regs = unat (seg_ofs (ss sregs)) + unat (low32 (rsp regs) AND 0xffff)"

text \<open>The offset of \<^verbatim>\<open>p\<close> from \<^verbatim>\<open>mem\<close> in the handlers of AH=0x40 and AH=0x3F (lines 488, 508).\<close>

definition dsdx_ofs :: "kvm_sregs \<Rightarrow> kvm_regs \<Rightarrow> nat" where
  "dsdx_ofs sregs regs = unat (seg_ofs (ds sregs)) + unat (low32 (rdx regs) AND 0xffff)"

text \<open>The label \<^verbatim>\<open>error_on_21\<close> (line 485): CF is set in the low word of FLAGS.\<close>

definition error_on_21 :: "kvm_regs \<Rightarrow> kvm_regs" where
  "error_on_21 regs = regs\<lparr>rflags := set_low16 (rflags regs) (low16 (rflags regs) OR 1)\<rparr>"

text \<open>Lines 490--491 and 510--511, the same two statements in both handlers.\<close>

definition remap_fd :: "32 word \<Rightarrow> 32 word" where
  "remap_fd fd = (if fd = 3 then 2 else if fd = 4 then 0 else fd)"

text \<open>\<^verbatim>\<open>goto exit\<close>: lines 561--564.\<close>

definition goto_exit :: "host_io list \<times> handled" where
  "goto_exit = ([Diag ''fatal: unexpected exit from KVM''], Exit 252)"

text \<open>AH=0x40, lines 479--499.\<close>

definition int21_write :: "host \<Rightarrow> memory \<Rightarrow> kvm_sregs \<Rightarrow> kvm_regs \<Rightarrow> host_io list \<times> handled" where
  "int21_write h mem sregs regs =
     (let fd = (ucast (low16 (rbx regs)) :: 32 word) in
      if fd > 4 then
        ([], Continue (error_on_21 (regs\<lparr>rax := set_low16 (rax regs) 6\<rparr>)) mem)
      else
        let p = dsdx_ofs sregs regs;
            size = unat (low16 (rcx regs));
            io = [WriteMem (unat (remap_fd fd)) p size];
            got = io_ret h
        in if got < 0 then
             (io, Continue (error_on_21 (regs\<lparr>rax := set_low16 (rax regs) 0x1d\<rparr>)) mem)
           else
             (io, Continue (regs\<lparr>rflags := set_low16 (rflags regs) (low16 (rflags regs) AND NOT 1),
                                   rax := set_low16 (rax regs) (word_of_int got)\<rparr>) mem))"

text \<open>
  AH=0x3F, lines 500--519. A successful host \<^verbatim>\<open>read\<close> has stored \<^verbatim>\<open>got\<close> bytes of
  the input at \<^verbatim>\<open>p\<close>.
\<close>

definition int21_read :: "host \<Rightarrow> memory \<Rightarrow> kvm_sregs \<Rightarrow> kvm_regs \<Rightarrow> host_io list \<times> handled" where
  "int21_read h mem sregs regs =
     (let fd = (ucast (low16 (rbx regs)) :: 32 word) in
      if fd > 4 then
        ([], Continue (error_on_21 (regs\<lparr>rax := set_low16 (rax regs) 6\<rparr>)) mem)
      else
        let p = dsdx_ofs sregs regs;
            size = unat (low16 (rcx regs));
            io = [ReadMem (unat (remap_fd fd)) p size];
            got = io_ret h
        in if got < 0 then
             (io, Continue (error_on_21 (regs\<lparr>rax := set_low16 (rax regs) 0x1e\<rparr>)) mem)
           else
             (io, Continue (regs\<lparr>rflags := set_low16 (rflags regs) (low16 (rflags regs) AND NOT 1),
                                   rax := set_low16 (rax regs) (word_of_int got)\<rparr>)
                           (memcpy_to mem p (take (nat got) (io_input h)))))"

text \<open>AH=0x09, lines 520--531.\<close>

definition int21_print :: "memory \<Rightarrow> kvm_sregs \<Rightarrow> kvm_regs \<Rightarrow> host_io list \<times> handled" where
  "int21_print mem sregs regs =
     (let dx0 = low16 (rdx regs);
          p = unat (seg_ofs (ds sregs))
      in case print_scan mem p dx0 of
           None \<Rightarrow> ([Diag ''fatal: !! offset overflow in print''], Exit 252)
         | Some dx \<Rightarrow> ([WriteMem 1 (p + unat dx0) (unat dx - unat dx0)], Continue regs mem))"

text \<open>The chain of \<^verbatim>\<open>if\<close>s of lines 458--542, in the order of the source.\<close>

definition int_handler :: "host \<Rightarrow> memory \<Rightarrow> kvm_sregs \<Rightarrow> kvm_regs \<Rightarrow> host_io list \<times> handled" where
  "int_handler h mem sregs regs =
     (let int_num = int_num_of regs;
          ah = ah_of regs;
          al = al_of regs;
          dl = dl_of regs
      in if int_num = 0x29 then ([WriteByte 1 al], Continue regs mem)
         else if int_num = 0x20 then ([], Exit 0)
         else if int_num = 0x21 then
           (if ah = 0x4c then ([], Exit (unat (low32 (rax regs) AND 0xff)))
            else if ah = 0x06 \<and> dl \<noteq> 0xff then ([WriteByte 1 dl], Continue regs mem)
            else if ah = 0x04 then ([WriteByte 2 dl], Continue regs mem)
            else if ah = 0x05 then ([WriteByte 1 dl], Continue regs mem)
            else if ah = 0x30 then
              ([], Continue (regs\<lparr>rax := set_low16 (rax regs) 5,
                                    rbx := set_low16 (rbx regs) 0xff00,
                                    rcx := set_low16 (rcx regs) 0\<rparr>) mem)
            else if ah = 0x40 then int21_write h mem sregs regs
            else if ah = 0x3f then int21_read h mem sregs regs
            else if ah = 0x09 then int21_print mem sregs regs
            else ([], Continue regs mem))
         else if int_num = 0x10 then
           (if ah = 0x0e then ([WriteByte 1 al], Continue regs mem)
            else goto_exit)
         else goto_exit)"

text \<open>Lines 543--547: the return from the interrupt.\<close>

definition return_from_int :: "16 word \<Rightarrow> 16 word \<Rightarrow> kvm_sregs \<Rightarrow> kvm_regs \<Rightarrow> kvm_sregs \<times> kvm_regs" where
  "return_from_int int_cs int_ip sregs regs =
     (sregs\<lparr>cs := SET_SEGMENT_REG (cs sregs) int_cs\<rparr>,
      regs\<lparr>rip := ucast int_ip, rsp := set_low32 (rsp regs) (low32 (rsp regs) + 6)\<rparr>)"

text \<open>
  \<^verbatim>\<open>case KVM_EXIT_HLT\<close>, lines 449--551. The return address is read before the handler
  runs (line 453).
\<close>

definition handle_hlt :: "host \<Rightarrow> memory \<Rightarrow> kvm_sregs \<Rightarrow> kvm_regs \<Rightarrow> host_io list \<times> outcome" where
  "handle_hlt h mem sregs regs =
     (if is_magic_hlt sregs regs then
        let a = csip_ofs sregs regs;
            int_ip = read16 mem a;
            int_cs = read16 mem (a + 2)
        in case int_handler h mem sregs regs of
             (io, Exit n) \<Rightarrow> (io, Terminated n)
           | (io, Continue regs' mem') \<Rightarrow>
               (case return_from_int int_cs int_ip sregs regs' of
                  (sregs'', regs'') \<Rightarrow> (io, Resume sregs'' regs'' mem'))
      else (Diag ''fatal: hlt'' # fst goto_exit, Terminated 252))"

text \<open>The \<^verbatim>\<open>switch (run->exit_reason)\<close> of lines 439--559.\<close>

datatype exit_reason =
  KVM_EXIT_IO
| KVM_EXIT_SHUTDOWN
| KVM_EXIT_HLT
| KVM_EXIT_MMIO
| KVM_EXIT_OTHER

definition handle_exit :: "exit_reason \<Rightarrow> host \<Rightarrow> memory \<Rightarrow> kvm_sregs \<Rightarrow> kvm_regs \<Rightarrow> host_io list \<times> outcome" where
  "handle_exit reason h mem sregs regs =
     (case reason of
        KVM_EXIT_IO \<Rightarrow> ([], Rerun)
      | KVM_EXIT_SHUTDOWN \<Rightarrow> ([Diag ''fatal: shutdown''], Terminated 252)
      | KVM_EXIT_HLT \<Rightarrow> handle_hlt h mem sregs regs
      | KVM_EXIT_MMIO \<Rightarrow>
          (Diag ''fatal: mmio phys_addr=%08x value=%08x%08x size=%d is_write=%d'' # fst goto_exit,
           Terminated 252)
      | KVM_EXIT_OTHER \<Rightarrow> (Diag ''fatal: KVM exit_reason: %d'' # fst goto_exit, Terminated 252))"

section \<open>The bootstrap: image, PSP and command line tail\<close>

text \<open>
  The exits of the bootstrap are \<^verbatim>\<open>exit(252)\<close>: the result type is \<open>nat + memory\<close>, with
  \<open>Inl\<close> the exit status of the process and \<open>Inr\<close> the memory the bootstrap goes on with.
  The \<^verbatim>\<open>fprintf\<close> diagnostics of the bootstrap are not recorded.
\<close>

text \<open>
  \<^verbatim>\<open>copy_args_to_dos_args\<close>, lines 276--291. \<^verbatim>\<open>p\<close> is the offset of its first argument from
  \<^verbatim>\<open>mem\<close>, an argument is the bytes of the C string before its NUL, and \<^verbatim>\<open>strlen\<close>
  is converted to \<^verbatim>\<open>unsigned\<close>. The loop of lines 278--288, with \<open>sz\<close> for \<^verbatim>\<open>size\<close>:
\<close>

fun copy_args_loop :: "memory \<Rightarrow> nat \<Rightarrow> 32 word \<Rightarrow> byte list list \<Rightarrow> nat + memory \<times> 32 word" where
  "copy_args_loop mem p sz [] = Inr (mem, sz)"
| "copy_args_loop mem p sz (arg # args) =
     (let arg_size = (word_of_nat (length arg) :: 32 word) in
      if sz + arg_size < sz \<or> sz + arg_size > 127 then Inl 252
      else copy_args_loop
             (memcpy_to (mem(p + unat sz := 0x20)) (p + unat (sz + 1)) (take (unat arg_size) arg))
             p (sz + 1 + arg_size) args)"

definition copy_args_to_dos_args :: "memory \<Rightarrow> nat \<Rightarrow> byte list list \<Rightarrow> nat + memory" where
  "copy_args_to_dos_args mem p args =
     (case copy_args_loop mem p 1 args of
        Inl status \<Rightarrow> Inl status
      | Inr (mem', sz) \<Rightarrow> Inr ((mem'(p + unat sz := 0x0D))(p := ucast (sz - 1))))"

text \<open>
  \<^verbatim>\<open>load_guest\<close>, lines 244--264. The file is \<open>None\<close> when \<^verbatim>\<open>open\<close> fails, and else the
  results of the successive \<^verbatim>\<open>read\<close> calls: an error, or the bytes read (none at the end
  of the file, as after the last element of the list). The program does not check that the
  image fits the arena.
\<close>

datatype read_result =
  Read_error
| Read_bytes "byte list"

definition IMAGE_OFS :: nat where
  "IMAGE_OFS = push_bit 4 BASE_PARA + 0x100"

fun load_loop :: "memory \<Rightarrow> nat \<Rightarrow> read_result list \<Rightarrow> nat + memory" where
  "load_loop mem p [] = Inr mem"
| "load_loop mem p (Read_error # rs) = Inl 252"
| "load_loop mem p (Read_bytes bs # rs) =
     (if bs = [] then Inr mem else load_loop (memcpy_to mem p bs) (p + length bs) rs)"

definition load_guest :: "read_result list option \<Rightarrow> memory \<Rightarrow> nat + memory" where
  "load_guest file mem =
     (case file of None \<Rightarrow> Inl 252 | Some rs \<Rightarrow> load_loop mem IMAGE_OFS rs)"

text \<open>Little-endian stores of an \<^verbatim>\<open>unsigned\<close> and of a \<^verbatim>\<open>short\<close>.\<close>

definition store32 :: "memory \<Rightarrow> nat \<Rightarrow> 32 word \<Rightarrow> memory" where
  "store32 mem a v =
     mem(a := ucast v, a + 1 := ucast (drop_bit 8 v), a + 2 := ucast (drop_bit 16 v),
         a + 3 := ucast (drop_bit 24 v))"

definition store16 :: "memory \<Rightarrow> nat \<Rightarrow> 16 word \<Rightarrow> memory" where
  "store16 mem a v = mem(a := ucast v, a + 1 := ucast (drop_bit 8 v))"

text \<open>The magic interrupt table, lines 381--384: the loop over \<^verbatim>\<open>u\<close> and the \<^verbatim>\<open>memset\<close>.\<close>

function fill_vectors :: "memory \<Rightarrow> 32 word \<Rightarrow> memory" where
  "fill_vectors mem u =
     (if u < 0x100 then fill_vectors (store32 mem (4 * unat u) (0x400000 OR u)) (u + 1) else mem)"
  by pat_completeness auto
termination
proof (relation "measure (\<lambda>(mem, u). 0x100 - unat u)")
  show "wf (measure (\<lambda>(mem :: memory, u :: 32 word). 0x100 - unat u))"
    by simp
next
  fix mem :: memory and u :: "32 word"
  assume "u < 0x100"
  then have less: "unat u < 0x100"
    by (simp add: word_less_nat_alt)
  then have "unat (u + 1) = unat u + 1"
    by (simp add: unat_word_ariths)
  with less show "((store32 mem (4 * unat u) (0x400000 OR u), u + 1), (mem, u))
      \<in> measure (\<lambda>(mem, u). 0x100 - unat u)"
    by simp
qed

declare fill_vectors.simps [simp del]

definition memset_to :: "memory \<Rightarrow> nat \<Rightarrow> byte \<Rightarrow> nat \<Rightarrow> memory" where
  "memset_to mem a c n = memcpy_to mem a (replicate n c)"

text \<open>
  The part of \<^verbatim>\<open>main\<close> that writes guest memory before the first \<^verbatim>\<open>KVM_RUN\<close>, in the
  order of the source: \<^verbatim>\<open>load_guest\<close> (line 353), the magic interrupt table (381--384), the
  PSP (397--402) and the command line tail (403). Every \<^verbatim>\<open>open\<close>, \<^verbatim>\<open>mmap\<close> and
  \<^verbatim>\<open>ioctl\<close> on the way is taken to succeed.
\<close>

definition bootstrap :: "read_result list option \<Rightarrow> byte list list \<Rightarrow> memory \<Rightarrow> nat + memory" where
  "bootstrap file args mem0 =
     (case load_guest file mem0 of
        Inl status \<Rightarrow> Inl status
      | Inr mem1 \<Rightarrow>
          let mem2 = memset_to (fill_vectors mem1 0) 0x400 0xf4 256;
              sp = 0xfffe;
              psp = push_bit 4 BASE_PARA;
              mem3 = store16 mem2 (psp + sp) 0;
              mem4 = store16 mem3 psp 0x20cd;
              mem5 = store16 mem4 (psp + 2) 0xa000;
              mem6 = mem5(psp + 0x80 := 0)
          in copy_args_to_dos_args mem6 (psp + 0x80) args)"

text \<open>
  The command line tail in the words of the specification: every argument preceded by one
  space, and the length of that.
\<close>

definition encoded_tail :: "byte list list \<Rightarrow> byte list" where
  "encoded_tail args = concat (map (\<lambda>arg. 0x20 # arg) args)"

definition encoded_length :: "byte list list \<Rightarrow> nat" where
  "encoded_length args = length (encoded_tail args)"

section \<open>Example states\<close>

definition blank_memory :: memory where
  "blank_memory a = 0"

definition quiet_host :: host where
  "quiet_host = \<lparr>io_ret = 0, io_input = []\<rparr>"

definition com_segment :: kvm_segment where
  "com_segment = \<lparr>selector = 0x100, base = 0x1000\<rparr>"

text \<open>The segment registers at a halt in the magic interrupt table, entered from a .com program.\<close>

definition int_sregs :: kvm_sregs where
  "int_sregs = \<lparr>cs = \<lparr>selector = 0x40, base = 0x400\<rparr>, ds = com_segment, es = com_segment,
                 fs = com_segment, gs = com_segment, ss = com_segment\<rparr>"

text \<open>The registers at the halt of \<^verbatim>\<open>int n\<close> with the given AX and FLAGS.\<close>

definition int_regs :: "64 word \<Rightarrow> 64 word \<Rightarrow> 64 word \<Rightarrow> kvm_regs" where
  "int_regs n ax fl = \<lparr>rax = ax, rbx = 0, rcx = 0, rdx = 0, rsp = 0xFFF8, rip = n + 1, rflags = fl\<rparr>"

text \<open>The registers at the halt of \<^verbatim>\<open>int 0x21\<close> with the given AX, BX, CX, DX and FLAGS.\<close>

definition int21_regs :: "64 word \<Rightarrow> 64 word \<Rightarrow> 64 word \<Rightarrow> 64 word \<Rightarrow> 64 word \<Rightarrow> kvm_regs" where
  "int21_regs ax bx cx dx fl =
     \<lparr>rax = ax, rbx = bx, rcx = cx, rdx = dx, rsp = 0xFFF8, rip = 0x22, rflags = fl\<rparr>"

definition failing_host :: host where
  "failing_host = \<lparr>io_ret = - 1, io_input = []\<rparr>"

definition host_returning :: "int \<Rightarrow> host" where
  "host_returning got = \<lparr>io_ret = got, io_input = []\<rparr>"

text \<open>
  A stack frame of \<^verbatim>\<open>int\<close> at \<^verbatim>\<open>SS:SP\<close> = 0x0100:0xFFF8: IP 0x0105, CS 0x0100 and
  FLAGS 0x0202.
\<close>

definition framed_memory :: memory where
  "framed_memory = memcpy_to blank_memory 0x10FF8 [0x05, 0x01, 0x00, 0x01, 0x02, 0x02]"

text \<open>The registers after the get-version service, called with CF set.\<close>

definition returned_sregs :: kvm_sregs where
  "returned_sregs = int_sregs\<lparr>cs := \<lparr>selector = 0, base = 0\<rparr>\<rparr>"

definition dos_version_regs :: kvm_regs where
  "dos_version_regs =
     \<lparr>rax = 0x0005, rbx = 0xFF00, rcx = 0, rdx = 0, rsp = 0xFFFE, rip = 0, rflags = 3\<rparr>"

text \<open>The registers after a write of no byte through handle 1 that the host refused.\<close>

definition write_fault_regs :: kvm_regs where
  "write_fault_regs =
     \<lparr>rax = 0x001D, rbx = 1, rcx = 0, rdx = 0x200, rsp = 0xFFFE, rip = 0, rflags = 3\<rparr>"

definition iret_sregs :: kvm_sregs where
  "iret_sregs = int_sregs\<lparr>cs := \<lparr>selector = 0x100, base = 0x1000\<rparr>\<rparr>"

definition iret_regs :: kvm_regs where
  "iret_regs =
     \<lparr>rax = 0x0005, rbx = 0xFF00, rcx = 0, rdx = 0, rsp = 0xFFFE, rip = 0x105, rflags = 3\<rparr>"

text \<open>A memory whose only \<^verbatim>\<open>$\<close> is the last byte of the segment 0x0100.\<close>

definition dollar_at_end :: memory where
  "dollar_at_end a = (if a = 0x10FFF then 0x24 else 0)"

text \<open>The same segment registers with DS at the highest paragraph.\<close>

definition top_sregs :: kvm_sregs where
  "top_sregs = int_sregs\<lparr>ds := \<lparr>selector = 0xFFFF, base = 0xFFFF0\<rparr>\<rparr>"

section \<open>Words and registers\<close>

lemma unat_ucast_up:
  "LENGTH('a::len) \<le> LENGTH('b::len) \<Longrightarrow> unat (ucast (w :: 'a word) :: 'b word) = unat w"
  by transfer (simp add: min_def nat_take_bit_eq)

lemma mask8_32: "(0xff :: 32 word) = mask 8"
  by (simp add: mask_eq_exp_minus_1)

lemma mask16_32: "(0xffff :: 32 word) = mask 16"
  by (simp add: mask_eq_exp_minus_1)

lemma exit_status_al: "unat (low32 r AND 0xff) = unat (ucast r :: byte)"
proof -
  have "low32 r AND 0xff = ucast (ucast r :: byte)"
    unfolding mask8_32 low32_def by (rule bit_word_eqI) (auto simp: bit_simps)
  then show ?thesis by (simp add: unat_ucast_up)
qed

lemma low16_set_low16 [simp]: "low16 (set_low16 r v) = v"
  unfolding low16_def set_low16_def by (rule bit_word_eqI) (auto simp: bit_simps)

lemma bit0_set_low16 [simp]: "bit (set_low16 r v) 0 = bit v 0"
  unfolding set_low16_def by (auto simp: bit_simps)

lemma bit0_cleared [simp]: "\<not> bit (x AND - 2 :: 16 word) 0"
  by (simp add: bit_simps)

lemma CF_rflags [simp]: "CF (regs\<lparr>rflags := f\<rparr>) = bit f 0"
  by (simp add: CF_def)

lemma CF_rax [simp]: "CF (regs\<lparr>rax := v\<rparr>) = CF regs"
  by (simp add: CF_def)

lemma CF_error_on_21 [simp]: "CF (error_on_21 regs)"
  by (simp add: CF_def error_on_21_def bit_simps)

lemma rax_error_on_21 [simp]: "rax (error_on_21 regs) = rax regs"
  by (simp add: error_on_21_def)

lemma handle_gt4: "(4 < (ucast (b :: 16 word) :: 32 word)) = (4 < unat b)"
  by (simp add: word_less_nat_alt unat_ucast_up)

lemma uint_got:
  "0 \<le> g \<Longrightarrow> g \<le> uint (c :: 16 word) \<Longrightarrow> uint (word_of_int g :: 16 word) = g"
proof -
  assume g: "0 \<le> g" "g \<le> uint c"
  have "uint c < 2 ^ 16" using uint_lt2p [of c] by simp
  with g have "g < 2 ^ 16" by simp
  with g show ?thesis
    by (simp add: uint_word_of_int take_bit_int_eq_self)
qed

lemma remap_fd_values:
  "unat (remap_fd 0) = 0"
  "unat (remap_fd 1) = 1"
  "unat (remap_fd 2) = 2"
  "unat (remap_fd 3) = 2"
  "unat (remap_fd 4) = 0"
  by (simp_all add: remap_fd_def)

lemma low32_set_low32 [simp]: "low32 (set_low32 r v) = v"
  unfolding low32_def set_low32_def by (rule bit_word_eqI) (auto simp: bit_simps)

lemma take_bit_16_32: "take_bit 16 (take_bit 32 (x :: int) + take_bit 32 y) = take_bit 16 (x + y)"
proof -
  have "take_bit 16 (take_bit 32 x + take_bit 32 y)
      = take_bit 16 (take_bit 16 (take_bit 32 x) + take_bit 16 (take_bit 32 y))"
    by (simp only: take_bit_add)
  also have "\<dots> = take_bit 16 (take_bit 16 x + take_bit 16 y)"
    by simp
  also have "\<dots> = take_bit 16 (x + y)"
    by (simp only: take_bit_add)
  finally show ?thesis .
qed

lemma ucast_add_down: "(ucast ((x :: 32 word) + y) :: 16 word) = ucast x + ucast y"
  by transfer (simp add: take_bit_16_32)

lemma sp_advance: "(ucast (set_low32 r (low32 r + 6)) :: 16 word) = ucast r + 6"
proof -
  have "(ucast (set_low32 r (low32 r + 6)) :: 16 word) = ucast (low32 r + 6)"
    unfolding set_low32_def by (rule bit_word_eqI) (auto simp: bit_simps)
  also have "\<dots> = ucast (low32 r) + 6"
    by (simp add: ucast_add_down)
  also have "(ucast (low32 r) :: 16 word) = ucast r"
    unfolding low32_def by (rule bit_word_eqI) (auto simp: bit_simps)
  finally show ?thesis .
qed

lemma unat_seg_base: "unat (push_bit 4 (ucast (s :: 16 word)) :: 64 word) = 16 * unat s"
proof -
  have "unat s < 2 ^ 16" using unsigned_less [of s, where 'a = nat] by simp
  then have "16 * unat s < 2 ^ 64" by simp
  then show ?thesis
    by (simp add: push_bit_eq_mult unat_word_ariths unat_ucast_up mult.commute)
qed

lemma unat16_less: "unat (x :: 16 word) < 65536"
  using unsigned_less [of x, where 'a = nat] by simp

lemma unat_inc16: "dx + 1 \<noteq> 0 \<Longrightarrow> unat ((dx :: 16 word) + 1) = Suc (unat dx)"
  using unatSuc [of dx] by (simp add: add.commute)

lemma wrap16: "((dx :: 16 word) + 1 = 0) = (unat dx = 65535)"
proof
  assume "dx + 1 = 0"
  then have "dx = - 1" by (simp add: eq_neg_iff_add_eq_0)
  then show "unat dx = 65535" by (simp add: unsigned_minus_1_eq_mask mask_eq_exp_minus_1)
next
  assume "unat dx = 65535"
  then have "of_nat (unat dx) = (of_nat 65535 :: 16 word)" by simp
  then have "dx = 65535" by simp
  then show "dx + 1 = 0" by simp
qed

lemma MEM_SIZE_val: "MEM_SIZE = 2097152"
  by (simp add: MEM_SIZE_def)

lemma unat_seg_ofs: "unat (seg_ofs s) = 16 * unat (selector s)"
proof -
  have "unat (selector s) < 2 ^ 16" using unsigned_less [of "selector s", where 'a = nat] by simp
  then have "16 * unat (selector s) < 2 ^ 32" by simp
  then show ?thesis
    by (simp add: seg_ofs_def push_bit_eq_mult unat_word_ariths unat_ucast_up mult.commute)
qed

lemma unat_low_offset: "unat (low32 r AND 0xffff) = unat (low16 r)"
proof -
  have "low32 r AND 0xffff = ucast (low16 r)"
    unfolding mask16_32 low32_def low16_def by (rule bit_word_eqI) (auto simp: bit_simps)
  then show ?thesis by (simp add: unat_ucast_up)
qed

lemma csip_ofs_eq: "csip_ofs sregs regs = 16 * unat (selector (ss sregs)) + unat (low16 (rsp regs))"
  by (simp add: csip_ofs_def unat_seg_ofs unat_low_offset)

lemma dsdx_ofs_eq: "dsdx_ofs sregs regs = 16 * unat (selector (ds sregs)) + unat (low16 (rdx regs))"
  by (simp add: dsdx_ofs_def unat_seg_ofs unat_low_offset)

lemma csip_ofs_bound: "csip_ofs sregs regs + 6 \<le> MEM_SIZE"
  using unat16_less [of "selector (ss sregs)"] unat16_less [of "low16 (rsp regs)"]
  by (simp add: csip_ofs_eq MEM_SIZE_val)

lemma dsdx_ofs_bound: "dsdx_ofs sregs regs + unat (low16 (rcx regs)) \<le> MEM_SIZE"
  using unat16_less [of "selector (ds sregs)"] unat16_less [of "low16 (rdx regs)"]
    unat16_less [of "low16 (rcx regs)"]
  by (simp add: dsdx_ofs_eq MEM_SIZE_val)

lemma ds_offset_bound: "unat (seg_ofs (ds sregs)) + unat (off :: 16 word) < MEM_SIZE"
  using unat16_less [of "selector (ds sregs)"] unat16_less [of off]
  by (simp add: unat_seg_ofs MEM_SIZE_val)

lemma ds_segment_bound: "unat (seg_ofs (ds sregs)) + 65536 \<le> MEM_SIZE"
  using unat16_less [of "selector (ds sregs)"]
  by (simp add: unat_seg_ofs MEM_SIZE_val)

section \<open>The scan of the print service\<close>

lemma print_scan_found:
  "unat dx \<le> k \<Longrightarrow> k < 65536 \<Longrightarrow> mem (p + k) = 0x24 \<Longrightarrow>
   (\<forall>j. unat dx \<le> j \<and> j < k \<longrightarrow> mem (p + j) \<noteq> 0x24) \<Longrightarrow>
   print_scan mem p dx = Some (of_nat k)"
proof (induction mem p dx rule: print_scan.induct)
  case (1 mem p dx)
  show ?case
  proof (cases "unat dx = k")
    case True
    then have "of_nat k = dx" by auto
    with True "1.prems" show ?thesis
      by (simp add: print_scan.simps [of mem p dx])
  next
    case False
    with "1.prems" have less: "unat dx < k" by simp
    with "1.prems" have no: "mem (p + unat dx) \<noteq> 0x24" by simp
    from less "1.prems" have nowrap: "dx + 1 \<noteq> 0" by (simp add: wrap16)
    then have suc: "unat (dx + 1) = Suc (unat dx)" by (rule unat_inc16)
    have "print_scan mem p (dx + 1) = Some (of_nat k)"
      using no nowrap "1.prems" less by (intro "1.IH") (simp_all add: suc)
    with no nowrap show ?thesis
      by (simp add: print_scan.simps [of mem p dx])
  qed
qed

lemma print_scan_wrap:
  "(\<forall>j. unat dx \<le> j \<and> j < 65536 \<longrightarrow> mem (p + j) \<noteq> 0x24) \<Longrightarrow> print_scan mem p dx = None"
proof (induction mem p dx rule: print_scan.induct)
  case (1 mem p dx)
  from "1.prems" have no: "mem (p + unat dx) \<noteq> 0x24"
    using unat16_less [of dx] by simp
  show ?case
  proof (cases "dx + 1 = 0")
    case True
    with no show ?thesis by (simp add: print_scan.simps [of mem p dx])
  next
    case False
    then have suc: "unat (dx + 1) = Suc (unat dx)" by (rule unat_inc16)
    have "print_scan mem p (dx + 1) = None"
      using no False "1.prems" by (intro "1.IH") (simp_all add: suc)
    with no False show ?thesis by (simp add: print_scan.simps [of mem p dx])
  qed
qed

lemma print_scan_agree:
  "(\<forall>a. a < p + 65536 \<longrightarrow> mem' a = mem a) \<Longrightarrow> print_scan mem' p dx = print_scan mem p dx"
proof (induction mem p dx rule: print_scan.induct)
  case (1 mem p dx)
  have same: "mem' (p + unat dx) = mem (p + unat dx)"
    using "1.prems" unat16_less [of dx] by simp
  show ?case
  proof (cases "mem (p + unat dx) = 0x24 \<or> dx + 1 = 0")
    case True
    with same show ?thesis
      by (auto simp: print_scan.simps [of mem p dx] print_scan.simps [of mem' p dx])
  next
    case False
    then have "print_scan mem' p (dx + 1) = print_scan mem p (dx + 1)"
      using "1.prems" by (intro "1.IH") simp_all
    with False same show ?thesis
      by (simp add: print_scan.simps [of mem p dx] print_scan.simps [of mem' p dx])
  qed
qed

lemma print_scan_Some_le:
  "print_scan mem p dx = Some e \<Longrightarrow> unat dx \<le> unat e"
proof (induction mem p dx rule: print_scan.induct)
  case (1 mem p dx)
  show ?case
  proof (cases "mem (p + unat dx) = 0x24")
    case True
    with "1.prems" show ?thesis by (simp add: print_scan.simps [of mem p dx])
  next
    case False
    with "1.prems" have nowrap: "dx + 1 \<noteq> 0" and rec: "print_scan mem p (dx + 1) = Some e"
      by (auto simp: print_scan.simps [of mem p dx] split: if_splits)
    from False nowrap rec have "unat (dx + 1) \<le> unat e" by (rule "1.IH")
    with nowrap show ?thesis by (simp add: unat_inc16)
  qed
qed

section \<open>The handlers, service by service\<close>

lemma return_from_int_keeps [simp]:
  "rax (snd (return_from_int c i sregs regs)) = rax regs"
  "rbx (snd (return_from_int c i sregs regs)) = rbx regs"
  "rcx (snd (return_from_int c i sregs regs)) = rcx regs"
  "rdx (snd (return_from_int c i sregs regs)) = rdx regs"
  "rflags (snd (return_from_int c i sregs regs)) = rflags regs"
  "CF (snd (return_from_int c i sregs regs)) = CF regs"
  by (simp_all add: return_from_int_def CF_def)

lemma handle_hlt_Exit:
  "is_magic_hlt sregs regs \<Longrightarrow> int_handler h mem sregs regs = (io, Exit n) \<Longrightarrow>
   handle_hlt h mem sregs regs = (io, Terminated n)"
  by (simp add: handle_hlt_def)

lemma handle_hlt_Continue:
  "is_magic_hlt sregs regs \<Longrightarrow> int_handler h mem sregs regs = (io, Continue regs' mem') \<Longrightarrow>
   handle_hlt h mem sregs regs =
     (io, Resume (fst (return_from_int (read16 mem (csip_ofs sregs regs + 2))
                                      (read16 mem (csip_ofs sregs regs)) sregs regs'))
                 (snd (return_from_int (read16 mem (csip_ofs sregs regs + 2))
                                      (read16 mem (csip_ofs sregs regs)) sregs regs')) mem')"
  by (simp add: handle_hlt_def Let_def split: prod.split)

lemma int21_write_bad_handle:
  "4 < unat (low16 (rbx regs)) \<Longrightarrow>
   int21_write h mem sregs regs
     = ([], Continue (error_on_21 (regs\<lparr>rax := set_low16 (rax regs) 6\<rparr>)) mem)"
  by (simp add: int21_write_def handle_gt4)

lemma int21_write_call:
  "unat (low16 (rbx regs)) \<le> 4 \<Longrightarrow>
   int21_write h mem sregs regs
     = ([WriteMem (unat (remap_fd (ucast (low16 (rbx regs))))) (dsdx_ofs sregs regs)
           (unat (low16 (rcx regs)))],
        Continue (if io_ret h < 0 then error_on_21 (regs\<lparr>rax := set_low16 (rax regs) 0x1d\<rparr>)
           else regs\<lparr>rflags := set_low16 (rflags regs) (low16 (rflags regs) AND NOT 1),
                     rax := set_low16 (rax regs) (word_of_int (io_ret h))\<rparr>) mem)"
  by (simp add: int21_write_def handle_gt4 Let_def)

lemma int21_read_bad_handle:
  "4 < unat (low16 (rbx regs)) \<Longrightarrow>
   int21_read h mem sregs regs
     = ([], Continue (error_on_21 (regs\<lparr>rax := set_low16 (rax regs) 6\<rparr>)) mem)"
  by (simp add: int21_read_def handle_gt4)

lemma int21_read_call:
  "unat (low16 (rbx regs)) \<le> 4 \<Longrightarrow>
   int21_read h mem sregs regs
     = ([ReadMem (unat (remap_fd (ucast (low16 (rbx regs))))) (dsdx_ofs sregs regs)
           (unat (low16 (rcx regs)))],
        Continue (if io_ret h < 0 then error_on_21 (regs\<lparr>rax := set_low16 (rax regs) 0x1e\<rparr>)
           else regs\<lparr>rflags := set_low16 (rflags regs) (low16 (rflags regs) AND NOT 1),
                     rax := set_low16 (rax regs) (word_of_int (io_ret h))\<rparr>)
          (if io_ret h < 0 then mem
           else memcpy_to mem (dsdx_ofs sregs regs) (take (nat (io_ret h)) (io_input h))))"
  by (simp add: int21_read_def handle_gt4 Let_def)

lemma int_handler_21_40:
  "int_num_of regs = 0x21 \<Longrightarrow> ah_of regs = 0x40 \<Longrightarrow>
   int_handler h mem sregs regs = int21_write h mem sregs regs"
  by (simp add: int_handler_def)

lemma int_handler_21_3f:
  "int_num_of regs = 0x21 \<Longrightarrow> ah_of regs = 0x3f \<Longrightarrow>
   int_handler h mem sregs regs = int21_read h mem sregs regs"
  by (simp add: int_handler_def)

lemma int_handler_21_30:
  "int_num_of regs = 0x21 \<Longrightarrow> ah_of regs = 0x30 \<Longrightarrow>
   int_handler h mem sregs regs
     = ([], Continue (regs\<lparr>rax := set_low16 (rax regs) 5, rbx := set_low16 (rbx regs) 0xff00,
                           rcx := set_low16 (rcx regs) 0\<rparr>) mem)"
  by (simp add: int_handler_def)

lemma int_handler_21_char:
  "int_num_of regs = 0x21 \<Longrightarrow> ah_of regs \<in> {0x04, 0x05, 0x06} \<Longrightarrow>
   int_handler h mem sregs regs
     = (if ah_of regs = 0x06 \<and> dl_of regs = 0xff then []
        else [WriteByte (if ah_of regs = 0x04 then 2 else 1) (dl_of regs)], Continue regs mem)"
  by (auto simp: int_handler_def)

lemma int_handler_21_09:
  "int_num_of regs = 0x21 \<Longrightarrow> ah_of regs = 0x09 \<Longrightarrow>
   int_handler h mem sregs regs = int21_print mem sregs regs"
  by (simp add: int_handler_def)

lemma int21_print_found:
  "print_scan mem (unat (seg_ofs (ds sregs))) (low16 (rdx regs)) = Some dx \<Longrightarrow>
   int21_print mem sregs regs
     = ([WriteMem 1 (unat (seg_ofs (ds sregs)) + unat (low16 (rdx regs)))
           (unat dx - unat (low16 (rdx regs)))], Continue regs mem)"
  by (simp add: int21_print_def Let_def)

lemma int21_print_wrap:
  "print_scan mem (unat (seg_ofs (ds sregs))) (low16 (rdx regs)) = None \<Longrightarrow>
   int21_print mem sregs regs = ([Diag ''fatal: !! offset overflow in print''], Exit 252)"
  by (simp add: int21_print_def)

lemma int_handler_unlisted:
  "int_num_of regs = 0x21 \<Longrightarrow>
   ah_of regs \<notin> {0x4c, 0x06, 0x04, 0x05, 0x30, 0x40, 0x3f, 0x09} \<Longrightarrow>
   int_handler h mem sregs regs = ([], Continue regs mem)"
  by (simp add: int_handler_def)

lemma int_handler_fatal:
  "int_num_of regs \<notin> {0x29, 0x20, 0x21, 0x10} \<or> int_num_of regs = 0x10 \<and> ah_of regs \<noteq> 0x0e \<Longrightarrow>
   int_handler h mem sregs regs = goto_exit"
  by (auto simp: int_handler_def)

lemma int_handler_rsp:
  "int_handler h mem sregs regs = (io, Continue regs' mem') \<Longrightarrow> rsp regs' = rsp regs"
  by (auto simp: int_handler_def int21_write_def int21_read_def int21_print_def goto_exit_def
      error_on_21_def Let_def split: if_splits option.splits)

lemmas hlt_version = handle_hlt_Continue [OF _ int_handler_21_30]
lemmas hlt_char = handle_hlt_Continue [OF _ int_handler_21_char]
lemmas hlt_print_found = handle_hlt_Continue [OF _ trans [OF int_handler_21_09 int21_print_found]]
lemmas hlt_print_wrap = handle_hlt_Exit [OF _ trans [OF int_handler_21_09 int21_print_wrap]]
lemmas hlt_write_bad = handle_hlt_Continue [OF _ trans [OF int_handler_21_40 int21_write_bad_handle]]
lemmas hlt_write_call = handle_hlt_Continue [OF _ trans [OF int_handler_21_40 int21_write_call]]
lemmas hlt_read_bad = handle_hlt_Continue [OF _ trans [OF int_handler_21_3f int21_read_bad_handle]]
lemmas hlt_read_call = handle_hlt_Continue [OF _ trans [OF int_handler_21_3f int21_read_call]]

text \<open>The example registers, decoded.\<close>

lemma int21_regs_decode:
  "is_magic_hlt int_sregs (int21_regs ax bx cx dx fl)"
  "int_num_of (int21_regs ax bx cx dx fl) = 0x21"
  "rax (int21_regs ax bx cx dx fl) = ax"
  "rbx (int21_regs ax bx cx dx fl) = bx"
  "rcx (int21_regs ax bx cx dx fl) = cx"
  "rdx (int21_regs ax bx cx dx fl) = dx"
  "rflags (int21_regs ax bx cx dx fl) = fl"
  by (simp_all add: is_magic_hlt_def int_sregs_def int21_regs_def int_num_of_def low32_def)

lemma ah_of_int21_regs:
  "ah_of (int21_regs 0x4000 bx cx dx fl) = 0x40"
  "ah_of (int21_regs 0x3F00 bx cx dx fl) = 0x3f"
  "ah_of (int21_regs 0x3000 bx cx dx fl) = 0x30"
  "ah_of (int21_regs 0x0A00 bx cx dx fl) = 0x0a"
  "ah_of (int21_regs 0x0900 bx cx dx fl) = 0x09"
  by (simp_all add: ah_of_def int21_regs_def low32_def)

lemma dsdx_ofs_int_sregs:
  "dsdx_ofs int_sregs (int21_regs ax bx cx 0x200 fl) = 0x1200"
  by (simp add: dsdx_ofs_def int_sregs_def com_segment_def int21_regs_def seg_ofs_def low32_def)

lemma int_handler_20: "int_num_of regs = 0x20 \<Longrightarrow> int_handler h mem sregs regs = ([], Exit 0)"
  by (simp add: int_handler_def)

lemma int_handler_21_4c:
  "int_num_of regs = 0x21 \<Longrightarrow> ah_of regs = 0x4c \<Longrightarrow>
   int_handler h mem sregs regs = ([], Exit (unat (al_of regs)))"
  by (simp add: int_handler_def exit_status_al al_of_def)

section \<open>Exit codes\<close>

text \<open>
  C6. At a halt of the magic interrupt table, \<^verbatim>\<open>int 0x20\<close> ends the host process with
  status 0, and \<^verbatim>\<open>int 0x21\<close> with AH=0x4C ends it with the status AL, the low byte of AX,
  whatever that byte is. Nothing is written before.
\<close>

theorem exit_code_mapping:
  assumes "is_magic_hlt sregs regs"
  shows "(int_num_of regs = 0x20 \<longrightarrow>
            handle_exit KVM_EXIT_HLT h mem sregs regs = ([], Terminated 0)) \<and>
         (int_num_of regs = 0x21 \<and> ah_of regs = 0x4c \<longrightarrow>
            handle_exit KVM_EXIT_HLT h mem sregs regs = ([], Terminated (unat (al_of regs))))"
  using assms
  by (simp add: handle_exit_def handle_hlt_def int_handler_20 int_handler_21_4c)

lemma exit_42_decode:
  "is_magic_hlt int_sregs (int_regs 0x21 0x4C2A 2)"
  "int_num_of (int_regs 0x21 0x4C2A 2) = 0x21"
  "ah_of (int_regs 0x21 0x4C2A 2) = 0x4c"
  "al_of (int_regs 0x21 0x4C2A 2) = 0x2A"
  by (simp_all add: is_magic_hlt_def int_sregs_def int_regs_def int_num_of_def ah_of_def
      al_of_def low32_def)

theorem exit_code_mapping_witness:
  "is_magic_hlt int_sregs (int_regs 0x21 0x4C2A 2) \<and>
   int_num_of (int_regs 0x21 0x4C2A 2) = 0x21 \<and> ah_of (int_regs 0x21 0x4C2A 2) = 0x4c \<and>
   handle_exit KVM_EXIT_HLT quiet_host blank_memory int_sregs (int_regs 0x21 0x4C2A 2)
     = ([], Terminated 42)"
  using exit_code_mapping [of int_sregs "int_regs 0x21 0x4C2A 2" quiet_host blank_memory]
  by (simp add: exit_42_decode)

section \<open>Read and write through a handle\<close>

text \<open>
  C7. For AH=0x40 and for AH=0x3F the one host call is made on the descriptor of the DOS
  handle in BX: handles 0, 1 and 2 on descriptors 0, 1 and 2, handle 3 on descriptor 2 and
  handle 4 on descriptor 0; so a write through handle 4 is a host write on descriptor 0.
  The call is on the \<^verbatim>\<open>CX\<close> bytes at \<^verbatim>\<open>DS:DX\<close>.
\<close>

theorem handle_to_fd:
  assumes "is_magic_hlt sregs regs" and "int_num_of regs = 0x21"
  shows "(ah_of regs = 0x40 \<longrightarrow>
            (low16 (rbx regs) = 0 \<longrightarrow> fst (handle_hlt h mem sregs regs)
               = [WriteMem 0 (dsdx_ofs sregs regs) (unat (low16 (rcx regs)))]) \<and>
            (low16 (rbx regs) = 1 \<longrightarrow> fst (handle_hlt h mem sregs regs)
               = [WriteMem 1 (dsdx_ofs sregs regs) (unat (low16 (rcx regs)))]) \<and>
            (low16 (rbx regs) = 2 \<longrightarrow> fst (handle_hlt h mem sregs regs)
               = [WriteMem 2 (dsdx_ofs sregs regs) (unat (low16 (rcx regs)))]) \<and>
            (low16 (rbx regs) = 3 \<longrightarrow> fst (handle_hlt h mem sregs regs)
               = [WriteMem 2 (dsdx_ofs sregs regs) (unat (low16 (rcx regs)))]) \<and>
            (low16 (rbx regs) = 4 \<longrightarrow> fst (handle_hlt h mem sregs regs)
               = [WriteMem 0 (dsdx_ofs sregs regs) (unat (low16 (rcx regs)))])) \<and>
         (ah_of regs = 0x3f \<longrightarrow>
            (low16 (rbx regs) = 0 \<longrightarrow> fst (handle_hlt h mem sregs regs)
               = [ReadMem 0 (dsdx_ofs sregs regs) (unat (low16 (rcx regs)))]) \<and>
            (low16 (rbx regs) = 1 \<longrightarrow> fst (handle_hlt h mem sregs regs)
               = [ReadMem 1 (dsdx_ofs sregs regs) (unat (low16 (rcx regs)))]) \<and>
            (low16 (rbx regs) = 2 \<longrightarrow> fst (handle_hlt h mem sregs regs)
               = [ReadMem 2 (dsdx_ofs sregs regs) (unat (low16 (rcx regs)))]) \<and>
            (low16 (rbx regs) = 3 \<longrightarrow> fst (handle_hlt h mem sregs regs)
               = [ReadMem 2 (dsdx_ofs sregs regs) (unat (low16 (rcx regs)))]) \<and>
            (low16 (rbx regs) = 4 \<longrightarrow> fst (handle_hlt h mem sregs regs)
               = [ReadMem 0 (dsdx_ofs sregs regs) (unat (low16 (rcx regs)))]))"
proof -
  have w: "unat (low16 (rbx regs)) \<le> 4 \<Longrightarrow> ah_of regs = 0x40 \<Longrightarrow>
      fst (handle_hlt h mem sregs regs)
        = [WriteMem (unat (remap_fd (ucast (low16 (rbx regs))))) (dsdx_ofs sregs regs)
             (unat (low16 (rcx regs)))]"
    using assms by (simp add: hlt_write_call)
  have r: "unat (low16 (rbx regs)) \<le> 4 \<Longrightarrow> ah_of regs = 0x3f \<Longrightarrow>
      fst (handle_hlt h mem sregs regs)
        = [ReadMem (unat (remap_fd (ucast (low16 (rbx regs))))) (dsdx_ofs sregs regs)
             (unat (low16 (rcx regs)))]"
    using assms by (simp add: hlt_read_call)
  show ?thesis
    using w r by (auto simp: remap_fd_values)
qed

theorem handle_to_fd_witness:
  "is_magic_hlt int_sregs (int21_regs 0x4000 4 2 0x200 2) \<and>
   int_num_of (int21_regs 0x4000 4 2 0x200 2) = 0x21 \<and>
   ah_of (int21_regs 0x4000 4 2 0x200 2) = 0x40 \<and>
   low16 (rbx (int21_regs 0x4000 4 2 0x200 2)) = 4 \<and>
   fst (handle_hlt quiet_host blank_memory int_sregs (int21_regs 0x4000 4 2 0x200 2))
     = [WriteMem 0 0x1200 2] \<and>
   is_magic_hlt int_sregs (int21_regs 0x3F00 3 2 0x200 2) \<and>
   int_num_of (int21_regs 0x3F00 3 2 0x200 2) = 0x21 \<and>
   ah_of (int21_regs 0x3F00 3 2 0x200 2) = 0x3f \<and>
   low16 (rbx (int21_regs 0x3F00 3 2 0x200 2)) = 3 \<and>
   fst (handle_hlt quiet_host blank_memory int_sregs (int21_regs 0x3F00 3 2 0x200 2))
     = [ReadMem 2 0x1200 2]"
  using handle_to_fd [of int_sregs "int21_regs 0x4000 4 2 0x200 2" quiet_host blank_memory]
    handle_to_fd [of int_sregs "int21_regs 0x3F00 3 2 0x200 2" quiet_host blank_memory]
  by (simp add: int21_regs_decode ah_of_int21_regs dsdx_ofs_int_sregs low16_def)

text \<open>
  A write of CX=0 bytes through the valid handle 1 still calls the host \<^verbatim>\<open>write\<close>, with
  length 0 (line 492 has no test of \<^verbatim>\<open>size\<close>); when that call fails, as on a closed or
  read-only descriptor, the guest gets AX=0x1D with CF set, not AX=0 with CF clear.
\<close>

theorem empty_write_counterexample:
  "is_magic_hlt int_sregs (int21_regs 0x4000 1 0 0x200 2) \<and>
   int_num_of (int21_regs 0x4000 1 0 0x200 2) = 0x21 \<and>
   ah_of (int21_regs 0x4000 1 0 0x200 2) = 0x40 \<and>
   low16 (rbx (int21_regs 0x4000 1 0 0x200 2)) = 1 \<and>
   low16 (rcx (int21_regs 0x4000 1 0 0x200 2)) = 0 \<and>
   handle_hlt failing_host blank_memory int_sregs (int21_regs 0x4000 1 0 0x200 2)
     = ([WriteMem 1 0x1200 0], Resume returned_sregs write_fault_regs blank_memory) \<and>
   low16 (rax write_fault_regs) = 0x1D \<and>
   CF write_fault_regs"
proof -
  have "handle_hlt failing_host blank_memory int_sregs (int21_regs 0x4000 1 0 0x200 2)
      = ([WriteMem 1 0x1200 0], Resume returned_sregs write_fault_regs blank_memory)"
    by (simp add: handle_hlt_def is_magic_hlt_def int_handler_def int_num_of_def
        ah_of_def al_of_def dl_of_def int21_write_def remap_fd_def dsdx_ofs_def error_on_21_def
        return_from_int_def csip_ofs_def seg_ofs_def com_segment_def
        read16_def blank_memory_def SET_SEGMENT_REG_def int_sregs_def returned_sregs_def
        failing_host_def write_fault_regs_def
        int21_regs_def set_low32_def set_low16_def low32_def low16_def mask_eq_exp_minus_1 Let_def)
  then show ?thesis
    by (simp add: int21_regs_decode ah_of_int21_regs)
       (simp add: low16_def CF_def write_fault_regs_def)
qed

text \<open>
  C5, amended. For AH=0x40 and AH=0x3F: a handle of 5 or more returns AX=6 with CF set and no
  host call is made; a host write that fails (a negative result) returns AX=0x1D with CF
  set, whatever CX is; a host read that fails returns AX=0x1E with CF set; a host call that
  succeeds, transferring at most the CX bytes asked for, returns the number of bytes in AX
  with CF clear. A write of CX=0 bytes through a valid handle asks the host for no byte, and
  when that host call succeeds it returns AX=0 with CF clear.
\<close>

theorem handle_io_results:
  assumes magic: "is_magic_hlt sregs regs" and int21: "int_num_of regs = 0x21"
      and ah: "ah_of regs = 0x40 \<or> ah_of regs = 0x3f"
  shows "(4 < unat (low16 (rbx regs)) \<longrightarrow>
            (\<exists>s' r'. handle_hlt h mem sregs regs = ([], Resume s' r' mem) \<and>
               low16 (rax r') = 6 \<and> CF r')) \<and>
         (ah_of regs = 0x40 \<and> unat (low16 (rbx regs)) \<le> 4 \<and> io_ret h < 0 \<longrightarrow>
            (\<exists>io s' r'. handle_hlt h mem sregs regs = (io, Resume s' r' mem) \<and>
               low16 (rax r') = 0x1d \<and> CF r')) \<and>
         (ah_of regs = 0x3f \<and> unat (low16 (rbx regs)) \<le> 4 \<and> io_ret h < 0 \<longrightarrow>
            (\<exists>io s' r'. handle_hlt h mem sregs regs = (io, Resume s' r' mem) \<and>
               low16 (rax r') = 0x1e \<and> CF r')) \<and>
         (unat (low16 (rbx regs)) \<le> 4 \<and> 0 \<le> io_ret h \<and> io_ret h \<le> uint (low16 (rcx regs)) \<longrightarrow>
            (\<exists>io s' r' mem'. handle_hlt h mem sregs regs = (io, Resume s' r' mem') \<and>
               uint (low16 (rax r')) = io_ret h \<and> \<not> CF r')) \<and>
         (ah_of regs = 0x40 \<and> unat (low16 (rbx regs)) \<le> 4 \<and> low16 (rcx regs) = 0 \<and>
          0 \<le> io_ret h \<and> io_ret h \<le> uint (low16 (rcx regs)) \<longrightarrow>
            (\<exists>fd s' r'. handle_hlt h mem sregs regs
                 = ([WriteMem fd (dsdx_ofs sregs regs) 0], Resume s' r' mem) \<and>
               low16 (rax r') = 0 \<and> \<not> CF r'))"
proof (intro conjI impI)
  assume "4 < unat (low16 (rbx regs))"
  with ah show "\<exists>s' r'. handle_hlt h mem sregs regs = ([], Resume s' r' mem) \<and>
      low16 (rax r') = 6 \<and> CF r'"
    by (auto simp: hlt_write_bad [OF magic int21] hlt_read_bad [OF magic int21])
next
  assume "ah_of regs = 0x40 \<and> unat (low16 (rbx regs)) \<le> 4 \<and> io_ret h < 0"
  then show "\<exists>io s' r'. handle_hlt h mem sregs regs = (io, Resume s' r' mem) \<and>
      low16 (rax r') = 0x1d \<and> CF r'"
    by (simp add: hlt_write_call [OF magic int21])
next
  assume "ah_of regs = 0x3f \<and> unat (low16 (rbx regs)) \<le> 4 \<and> io_ret h < 0"
  then show "\<exists>io s' r'. handle_hlt h mem sregs regs = (io, Resume s' r' mem) \<and>
      low16 (rax r') = 0x1e \<and> CF r'"
    by (simp add: hlt_read_call [OF magic int21])
next
  assume "unat (low16 (rbx regs)) \<le> 4 \<and> 0 \<le> io_ret h \<and> io_ret h \<le> uint (low16 (rcx regs))"
  with ah show "\<exists>io s' r' mem'. handle_hlt h mem sregs regs = (io, Resume s' r' mem') \<and>
      uint (low16 (rax r')) = io_ret h \<and> \<not> CF r'"
    by (auto simp: hlt_write_call [OF magic int21] hlt_read_call [OF magic int21] uint_got)
next
  assume a: "ah_of regs = 0x40 \<and> unat (low16 (rbx regs)) \<le> 4 \<and> low16 (rcx regs) = 0 \<and>
          0 \<le> io_ret h \<and> io_ret h \<le> uint (low16 (rcx regs))"
  then have "io_ret h = 0" by auto
  with a show "\<exists>fd s' r'. handle_hlt h mem sregs regs
       = ([WriteMem fd (dsdx_ofs sregs regs) 0], Resume s' r' mem) \<and>
      low16 (rax r') = 0 \<and> \<not> CF r'"
    by (simp add: hlt_write_call [OF magic int21])
qed

theorem handle_io_results_witness:
  "is_magic_hlt int_sregs (int21_regs 0x4000 9 1 0x200 2) \<and>
   int_num_of (int21_regs 0x4000 9 1 0x200 2) = 0x21 \<and>
   ah_of (int21_regs 0x4000 9 1 0x200 2) = 0x40 \<and>
   4 < unat (low16 (rbx (int21_regs 0x4000 9 1 0x200 2))) \<and>
   (\<exists>s' r'. handle_hlt quiet_host blank_memory int_sregs (int21_regs 0x4000 9 1 0x200 2)
        = ([], Resume s' r' blank_memory) \<and> low16 (rax r') = 6 \<and> CF r') \<and>
   unat (low16 (rbx (int21_regs 0x4000 1 2 0x200 2))) \<le> 4 \<and> io_ret failing_host < 0 \<and>
   (\<exists>io s' r'. handle_hlt failing_host blank_memory int_sregs (int21_regs 0x4000 1 2 0x200 2)
        = (io, Resume s' r' blank_memory) \<and> low16 (rax r') = 0x1d \<and> CF r') \<and>
   (\<exists>io s' r'. handle_hlt failing_host blank_memory int_sregs (int21_regs 0x3F00 1 2 0x200 2)
        = (io, Resume s' r' blank_memory) \<and> low16 (rax r') = 0x1e \<and> CF r') \<and>
   0 \<le> io_ret (host_returning 2) \<and>
   io_ret (host_returning 2) \<le> uint (low16 (rcx (int21_regs 0x4000 1 2 0x200 3))) \<and>
   (\<exists>io s' r' mem'. handle_hlt (host_returning 2) blank_memory int_sregs
          (int21_regs 0x4000 1 2 0x200 3) = (io, Resume s' r' mem') \<and>
      uint (low16 (rax r')) = 2 \<and> \<not> CF r') \<and>
   low16 (rcx (int21_regs 0x4000 1 0 0x200 3)) = 0 \<and>
   (\<exists>fd s' r'. handle_hlt (host_returning 0) blank_memory int_sregs
          (int21_regs 0x4000 1 0 0x200 3)
        = ([WriteMem fd 0x1200 0], Resume s' r' blank_memory) \<and>
      low16 (rax r') = 0 \<and> \<not> CF r')"
  using
    handle_io_results [of int_sregs "int21_regs 0x4000 9 1 0x200 2" quiet_host blank_memory]
    handle_io_results [of int_sregs "int21_regs 0x4000 1 2 0x200 2" failing_host blank_memory]
    handle_io_results [of int_sregs "int21_regs 0x3F00 1 2 0x200 2" failing_host blank_memory]
    handle_io_results [of int_sregs "int21_regs 0x4000 1 2 0x200 3" "host_returning 2" blank_memory]
    handle_io_results [of int_sregs "int21_regs 0x4000 1 0 0x200 3" "host_returning 0" blank_memory]
  by (simp add: int21_regs_decode ah_of_int21_regs dsdx_ofs_int_sregs low16_def
      failing_host_def host_returning_def)

section \<open>Unrecognised services\<close>

text \<open>
  C1. The claim is that every interrupt outside the recognised set ends the process with
  status 252, \<^verbatim>\<open>int 0x21\<close> with AH=0x0A among them. Evaluated at \<^verbatim>\<open>int 0x21\<close> with
  AX=0x0A00, the dispatcher makes no host call and resumes the guest at the return address of
  the stack frame: the chain of \<^verbatim>\<open>if\<close>s for \<^verbatim>\<open>int 0x21\<close> has no final \<^verbatim>\<open>else\<close>, unlike
  the one for \<^verbatim>\<open>int 0x10\<close> and the one over the interrupt numbers, which \<^verbatim>\<open>goto exit\<close>.
\<close>

theorem unlisted_int21_resumes:
  "handle_exit KVM_EXIT_HLT quiet_host blank_memory int_sregs (int21_regs 0x0A00 0 0 0 2)
     = ([], Resume (int_sregs\<lparr>cs := \<lparr>selector = 0, base = 0\<rparr>\<rparr>)
                   ((int21_regs 0x0A00 0 0 0 2)\<lparr>rip := 0, rsp := 0xFFFE\<rparr>) blank_memory)"
proof -
  have "int_handler quiet_host blank_memory int_sregs (int21_regs 0x0A00 0 0 0 2)
      = ([], Continue (int21_regs 0x0A00 0 0 0 2) blank_memory)"
    by (rule int_handler_unlisted) (simp_all add: int21_regs_decode ah_of_int21_regs)
  note handle_hlt_Continue [OF int21_regs_decode(1) this]
  then show ?thesis
    by (simp add: handle_exit_def return_from_int_def csip_ofs_def
        read16_def blank_memory_def SET_SEGMENT_REG_def int_sregs_def int21_regs_def
        set_low32_def low32_def mask_eq_exp_minus_1)
qed

section \<open>The carry flag of the INT 21h services\<close>

text \<open>
  The get-version service (AH=0x30) called with CF set completes, and returns to the guest
  with CF still set.
\<close>

theorem carry_flag_counterexample:
  "is_magic_hlt int_sregs (int21_regs 0x3000 0 0 0 3) \<and>
   int_num_of (int21_regs 0x3000 0 0 0 3) = 0x21 \<and>
   ah_of (int21_regs 0x3000 0 0 0 3) = 0x30 \<and>
   handle_hlt quiet_host blank_memory int_sregs (int21_regs 0x3000 0 0 0 3)
     = ([], Resume returned_sregs dos_version_regs blank_memory) \<and>
   CF dos_version_regs"
proof -
  have "int_handler quiet_host blank_memory int_sregs (int21_regs 0x3000 0 0 0 3)
      = ([], Continue ((int21_regs 0x3000 0 0 0 3)\<lparr>rax := set_low16 (rax (int21_regs 0x3000 0 0 0 3)) 5,
            rbx := set_low16 (rbx (int21_regs 0x3000 0 0 0 3)) 0xff00,
            rcx := set_low16 (rcx (int21_regs 0x3000 0 0 0 3)) 0\<rparr>) blank_memory)"
    by (rule int_handler_21_30) (simp_all add: int21_regs_decode ah_of_int21_regs)
  note handle_hlt_Continue [OF int21_regs_decode(1) this]
  then have "handle_hlt quiet_host blank_memory int_sregs (int21_regs 0x3000 0 0 0 3)
      = ([], Resume returned_sregs dos_version_regs blank_memory)"
    by (simp add: return_from_int_def csip_ofs_def
        read16_def blank_memory_def SET_SEGMENT_REG_def int_sregs_def int21_regs_def
        set_low32_def set_low16_def low32_def mask_eq_exp_minus_1 returned_sregs_def
        dos_version_regs_def)
  then show ?thesis
    by (simp add: int21_regs_decode ah_of_int21_regs) (simp add: CF_def dos_version_regs_def)
qed

text \<open>
  C2, amended. For AH=0x3F and AH=0x40: when the handle is valid and the host call succeeds,
  CF is clear on return whatever FLAGS was at the interrupt; a handle above 4 returns CF set
  and AX=6, a failed host write CF set and AX=0x1D, a failed host read CF set and AX=0x1E.
  For AH=0x04, 0x05, 0x06 and 0x30 the handler returns to the guest with FLAGS as it was at
  the interrupt, and so does AH=0x09 unless its scan wraps, which ends the process.
\<close>

theorem int21_carry_flag:
  assumes magic: "is_magic_hlt sregs regs" and int21: "int_num_of regs = 0x21"
  shows "((ah_of regs = 0x40 \<or> ah_of regs = 0x3f) \<and> unat (low16 (rbx regs)) \<le> 4 \<and> 0 \<le> io_ret h \<longrightarrow>
            (\<exists>io s' r' mem'. handle_hlt h mem sregs regs = (io, Resume s' r' mem') \<and> \<not> CF r')) \<and>
         ((ah_of regs = 0x40 \<or> ah_of regs = 0x3f) \<and> 4 < unat (low16 (rbx regs)) \<longrightarrow>
            (\<exists>io s' r'. handle_hlt h mem sregs regs = (io, Resume s' r' mem) \<and>
               CF r' \<and> low16 (rax r') = 6)) \<and>
         (ah_of regs = 0x40 \<and> unat (low16 (rbx regs)) \<le> 4 \<and> io_ret h < 0 \<longrightarrow>
            (\<exists>io s' r'. handle_hlt h mem sregs regs = (io, Resume s' r' mem) \<and>
               CF r' \<and> low16 (rax r') = 0x1d)) \<and>
         (ah_of regs = 0x3f \<and> unat (low16 (rbx regs)) \<le> 4 \<and> io_ret h < 0 \<longrightarrow>
            (\<exists>io s' r'. handle_hlt h mem sregs regs = (io, Resume s' r' mem) \<and>
               CF r' \<and> low16 (rax r') = 0x1e)) \<and>
         (ah_of regs \<in> {0x04, 0x05, 0x06, 0x30} \<longrightarrow>
            (\<exists>io s' r'. handle_hlt h mem sregs regs = (io, Resume s' r' mem) \<and>
               rflags r' = rflags regs \<and> CF r' = CF regs)) \<and>
         (ah_of regs = 0x09 \<longrightarrow>
            (print_scan mem (unat (seg_ofs (ds sregs))) (low16 (rdx regs)) = None \<and>
             snd (handle_hlt h mem sregs regs) = Terminated 252) \<or>
            (\<exists>io s' r'. handle_hlt h mem sregs regs = (io, Resume s' r' mem) \<and>
               rflags r' = rflags regs \<and> CF r' = CF regs))"
proof (intro conjI impI)
  assume "(ah_of regs = 0x40 \<or> ah_of regs = 0x3f) \<and> unat (low16 (rbx regs)) \<le> 4 \<and> 0 \<le> io_ret h"
  then show "\<exists>io s' r' mem'. handle_hlt h mem sregs regs = (io, Resume s' r' mem') \<and> \<not> CF r'"
    by (auto simp: hlt_write_call [OF magic int21] hlt_read_call [OF magic int21])
next
  assume "(ah_of regs = 0x40 \<or> ah_of regs = 0x3f) \<and> 4 < unat (low16 (rbx regs))"
  then show "\<exists>io s' r'. handle_hlt h mem sregs regs = (io, Resume s' r' mem) \<and>
      CF r' \<and> low16 (rax r') = 6"
    by (auto simp: hlt_write_bad [OF magic int21] hlt_read_bad [OF magic int21])
next
  assume "ah_of regs = 0x40 \<and> unat (low16 (rbx regs)) \<le> 4 \<and> io_ret h < 0"
  then show "\<exists>io s' r'. handle_hlt h mem sregs regs = (io, Resume s' r' mem) \<and>
      CF r' \<and> low16 (rax r') = 0x1d"
    by (simp add: hlt_write_call [OF magic int21])
next
  assume "ah_of regs = 0x3f \<and> unat (low16 (rbx regs)) \<le> 4 \<and> io_ret h < 0"
  then show "\<exists>io s' r'. handle_hlt h mem sregs regs = (io, Resume s' r' mem) \<and>
      CF r' \<and> low16 (rax r') = 0x1e"
    by (simp add: hlt_read_call [OF magic int21])
next
  assume "ah_of regs \<in> {0x04, 0x05, 0x06, 0x30}"
  then consider "ah_of regs = 0x30" | "ah_of regs \<in> {0x04, 0x05, 0x06}"
    by auto
  then show "\<exists>io s' r'. handle_hlt h mem sregs regs = (io, Resume s' r' mem) \<and>
      rflags r' = rflags regs \<and> CF r' = CF regs"
  proof cases
    case 1
    then show ?thesis
      by (simp add: hlt_version [OF magic int21] CF_def)
  next
    case 2
    then show ?thesis
      by (simp add: hlt_char [OF magic int21])
  qed
next
  assume ah: "ah_of regs = 0x09"
  show "(print_scan mem (unat (seg_ofs (ds sregs))) (low16 (rdx regs)) = None \<and>
         snd (handle_hlt h mem sregs regs) = Terminated 252) \<or>
        (\<exists>io s' r'. handle_hlt h mem sregs regs = (io, Resume s' r' mem) \<and>
           rflags r' = rflags regs \<and> CF r' = CF regs)"
  proof (cases "print_scan mem (unat (seg_ofs (ds sregs))) (low16 (rdx regs))")
    case None
    then show ?thesis
      by (simp add: hlt_print_wrap [OF magic int21 ah])
  next
    case (Some dx)
    then show ?thesis
      by (simp add: hlt_print_found [OF magic int21 ah])
  qed
qed

theorem int21_carry_flag_witness:
  "is_magic_hlt int_sregs (int21_regs 0x4000 1 2 0x200 3) \<and>
   int_num_of (int21_regs 0x4000 1 2 0x200 3) = 0x21 \<and>
   ah_of (int21_regs 0x4000 1 2 0x200 3) = 0x40 \<and>
   unat (low16 (rbx (int21_regs 0x4000 1 2 0x200 3))) \<le> 4 \<and> 0 \<le> io_ret (host_returning 2) \<and>
   (\<exists>io s' r' mem'. handle_hlt (host_returning 2) blank_memory int_sregs
        (int21_regs 0x4000 1 2 0x200 3) = (io, Resume s' r' mem') \<and> \<not> CF r') \<and>
   ah_of (int21_regs 0x3000 0 0 0 3) \<in> {0x04, 0x05, 0x06, 0x30} \<and>
   (\<exists>io s' r'. handle_hlt quiet_host blank_memory int_sregs (int21_regs 0x3000 0 0 0 3)
        = (io, Resume s' r' blank_memory) \<and>
      rflags r' = rflags (int21_regs 0x3000 0 0 0 3) \<and> CF r' = CF (int21_regs 0x3000 0 0 0 3))"
  using
    int21_carry_flag [of int_sregs "int21_regs 0x4000 1 2 0x200 3" "host_returning 2" blank_memory]
    int21_carry_flag [of int_sregs "int21_regs 0x3000 0 0 0 3" quiet_host blank_memory]
  by (simp add: int21_regs_decode ah_of_int21_regs low16_def host_returning_def)

section \<open>The return from the interrupt\<close>

text \<open>
  C4. Whenever the dispatcher resumes the guest after a halt, the halt was one of the magic
  interrupt table and the handler fell through to the interrupt return, which computes the
  new registers from the handler's registers and the first two words of the frame at
  \<^verbatim>\<open>SS:SP\<close> only: CS is the second word, with base 16 times the selector, IP is the first
  word, the low 32 bits of \<^verbatim>\<open>rsp\<close> (so SP, modulo 65536) are advanced by 6, and FLAGS is
  what the handler left. The two bytes of the third word of the frame, the pushed FLAGS, do
  not enter the words that are read.
\<close>

theorem interrupt_return:
  assumes "handle_hlt h mem sregs regs = (io, Resume sregs' regs' mem')"
  shows "\<exists>regs\<^sub>h.
           is_magic_hlt sregs regs \<and>
           int_handler h mem sregs regs = (io, Continue regs\<^sub>h mem') \<and>
           (sregs', regs') = return_from_int (read16 mem (csip_ofs sregs regs + 2))
                                             (read16 mem (csip_ofs sregs regs)) sregs regs\<^sub>h \<and>
           selector (cs sregs') = read16 mem (csip_ofs sregs regs + 2) \<and>
           unat (base (cs sregs')) = 16 * unat (selector (cs sregs')) \<and>
           rip regs' = ucast (read16 mem (csip_ofs sregs regs)) \<and>
           low32 (rsp regs') = low32 (rsp regs) + 6 \<and>
           (ucast (rsp regs') :: 16 word) = ucast (rsp regs) + 6 \<and>
           rflags regs' = rflags regs\<^sub>h \<and>
           (\<forall>x y. read16 (mem(csip_ofs sregs regs + 4 := x, csip_ofs sregs regs + 5 := y))
                      (csip_ofs sregs regs) = read16 mem (csip_ofs sregs regs) \<and>
                  read16 (mem(csip_ofs sregs regs + 4 := x, csip_ofs sregs regs + 5 := y))
                      (csip_ofs sregs regs + 2) = read16 mem (csip_ofs sregs regs + 2))"
proof -
  from assms have magic: "is_magic_hlt sregs regs"
    by (auto simp: handle_hlt_def split: if_splits)
  obtain io' hd where ih: "int_handler h mem sregs regs = (io', hd)"
    by (cases "int_handler h mem sregs regs")
  show ?thesis
  proof (cases hd)
    case (Exit n)
    with assms magic ih show ?thesis
      by (simp add: handle_hlt_Exit)
  next
    case (Continue rh mh)
    with ih have ih': "int_handler h mem sregs regs = (io', Continue rh mh)"
      by simp
    from assms handle_hlt_Continue [OF magic ih']
    have eqs: "io' = io" "mh = mem'"
      "sregs' = fst (return_from_int (read16 mem (csip_ofs sregs regs + 2))
                                     (read16 mem (csip_ofs sregs regs)) sregs rh)"
      "regs' = snd (return_from_int (read16 mem (csip_ofs sregs regs + 2))
                                     (read16 mem (csip_ofs sregs regs)) sregs rh)"
      by simp_all
    have sp: "rsp rh = rsp regs"
      using ih' by (rule int_handler_rsp)
    show ?thesis
      using magic ih' eqs(1,2) sp
      by (intro exI [of _ rh])
         (simp add: eqs(3,4) return_from_int_def SET_SEGMENT_REG_def unat_seg_base sp_advance
           read16_def)
  qed
qed

lemma framed_return:
  "handle_hlt quiet_host framed_memory int_sregs (int21_regs 0x3000 0 0 0 3)
     = ([], Resume iret_sregs iret_regs framed_memory)"
proof -
  have "int_handler quiet_host framed_memory int_sregs (int21_regs 0x3000 0 0 0 3)
      = ([], Continue ((int21_regs 0x3000 0 0 0 3)\<lparr>rax := set_low16 (rax (int21_regs 0x3000 0 0 0 3)) 5,
            rbx := set_low16 (rbx (int21_regs 0x3000 0 0 0 3)) 0xff00,
            rcx := set_low16 (rcx (int21_regs 0x3000 0 0 0 3)) 0\<rparr>) framed_memory)"
    by (rule int_handler_21_30) (simp_all add: int21_regs_decode ah_of_int21_regs)
  note handle_hlt_Continue [OF int21_regs_decode(1) this]
  then show ?thesis
    by (simp add: return_from_int_def csip_ofs_def seg_ofs_def com_segment_def
        read16_def framed_memory_def blank_memory_def SET_SEGMENT_REG_def int_sregs_def
        int21_regs_def set_low32_def set_low16_def low32_def mask_eq_exp_minus_1
        iret_sregs_def iret_regs_def)
qed

theorem interrupt_return_witness:
  "handle_hlt quiet_host framed_memory int_sregs (int21_regs 0x3000 0 0 0 3)
     = ([], Resume iret_sregs iret_regs framed_memory) \<and>
   selector (cs iret_sregs)
     = read16 framed_memory (csip_ofs int_sregs (int21_regs 0x3000 0 0 0 3) + 2) \<and>
   rip iret_regs = ucast (read16 framed_memory (csip_ofs int_sregs (int21_regs 0x3000 0 0 0 3))) \<and>
   (ucast (rsp iret_regs) :: 16 word) = ucast (rsp (int21_regs 0x3000 0 0 0 3)) + 6"
  using interrupt_return [OF framed_return] framed_return by blast

section \<open>Guest memory accesses\<close>

lemma int21_print_io_bound:
  "e \<in> set (fst (int21_print mem sregs regs)) \<Longrightarrow> e = WriteMem fd a n \<Longrightarrow> a + n \<le> MEM_SIZE"
proof -
  assume e: "e \<in> set (fst (int21_print mem sregs regs))" "e = WriteMem fd a n"
  show ?thesis
  proof (cases "print_scan mem (unat (seg_ofs (ds sregs))) (low16 (rdx regs))")
    case None
    with e show ?thesis by (simp add: int21_print_wrap)
  next
    case (Some dx)
    from print_scan_Some_le [OF Some] have "unat (low16 (rdx regs)) \<le> unat dx" .
    moreover have "unat (seg_ofs (ds sregs)) + unat dx < MEM_SIZE" by (rule ds_offset_bound)
    ultimately show ?thesis using e Some by (auto simp: int21_print_found)
  qed
qed

lemma int_handler_io_bound:
  assumes "e \<in> set (fst (int_handler h mem sregs regs))"
      and "e = WriteMem fd a n \<or> e = ReadMem fd a n"
  shows "a + n \<le> MEM_SIZE"
proof -
  have w: "x \<in> set (fst (int21_write h mem sregs regs)) \<Longrightarrow>
      x = WriteMem fd a n \<or> x = ReadMem fd a n \<Longrightarrow> a + n \<le> MEM_SIZE" for x
    using dsdx_ofs_bound [of sregs regs]
    by (auto simp: int21_write_def Let_def split: if_splits)
  have r: "x \<in> set (fst (int21_read h mem sregs regs)) \<Longrightarrow>
      x = WriteMem fd a n \<or> x = ReadMem fd a n \<Longrightarrow> a + n \<le> MEM_SIZE" for x
    using dsdx_ofs_bound [of sregs regs]
    by (auto simp: int21_read_def Let_def split: if_splits)
  have p: "x \<in> set (fst (int21_print mem sregs regs)) \<Longrightarrow>
      x = WriteMem fd a n \<or> x = ReadMem fd a n \<Longrightarrow> a + n \<le> MEM_SIZE" for x
    using int21_print_io_bound [of x mem sregs regs fd a n]
    by (auto simp: int21_print_def Let_def split: option.splits)
  show ?thesis
    using assms w [of e] r [of e] p [of e]
    by (auto simp: int_handler_def Let_def goto_exit_def split: if_splits)
qed

lemma handle_exit_io_bound:
  assumes "e \<in> set (fst (handle_exit reason h mem sregs regs))"
      and "e = WriteMem fd a n \<or> e = ReadMem fd a n"
  shows "a + n \<le> MEM_SIZE"
proof -
  have "e \<in> set (fst (int_handler h mem sregs regs))
      \<or> e \<in> {Diag ''fatal: hlt'', Diag ''fatal: shutdown'',
          Diag ''fatal: mmio phys_addr=%08x value=%08x%08x size=%d is_write=%d'',
          Diag ''fatal: KVM exit_reason: %d'', Diag ''fatal: unexpected exit from KVM''}"
    using assms(1)
    by (cases reason; cases "int_handler h mem sregs regs"; cases "snd (int_handler h mem sregs regs)")
       (auto simp: handle_exit_def handle_hlt_def goto_exit_def Let_def return_from_int_def
         split: if_splits)
  with assms(2) show ?thesis
    by (auto dest: int_handler_io_bound)
qed


lemma read16_agree:
  "(\<forall>a. a < MEM_SIZE \<longrightarrow> mem' a = mem a) \<Longrightarrow> x + 1 < MEM_SIZE \<Longrightarrow> read16 mem' x = read16 mem x"
  by (simp add: read16_def)

lemma int21_print_agree:
  assumes "\<forall>a. a < MEM_SIZE \<longrightarrow> mem' a = mem a"
  shows "int21_print mem' sregs regs
       = (fst (int21_print mem sregs regs),
          case snd (int21_print mem sregs regs) of Exit n \<Rightarrow> Exit n | Continue r m \<Rightarrow> Continue r mem')"
proof -
  have "print_scan mem' (unat (seg_ofs (ds sregs))) (low16 (rdx regs))
      = print_scan mem (unat (seg_ofs (ds sregs))) (low16 (rdx regs))"
    using assms ds_segment_bound [of sregs] by (intro print_scan_agree) simp
  then show ?thesis
    by (simp add: int21_print_def Let_def split: option.splits)
qed

lemma int_handler_agree:
  assumes "\<forall>a. a < MEM_SIZE \<longrightarrow> mem' a = mem a"
  shows "fst (int_handler h mem' sregs regs) = fst (int_handler h mem sregs regs) \<and>
         (case snd (int_handler h mem sregs regs) of
            Exit n \<Rightarrow> snd (int_handler h mem' sregs regs) = Exit n
          | Continue r m \<Rightarrow> (\<exists>m'. snd (int_handler h mem' sregs regs) = Continue r m'))"
  using int21_print_agree [OF assms, of sregs regs]
  by (auto simp: int_handler_def Let_def int21_write_def int21_read_def goto_exit_def
      split: handled.splits)

lemma handle_hlt_agree:
  assumes agree: "\<forall>a. a < MEM_SIZE \<longrightarrow> mem' a = mem a"
  shows "fst (handle_hlt h mem' sregs regs) = fst (handle_hlt h mem sregs regs) \<and>
         (\<forall>n. snd (handle_hlt h mem sregs regs) = Terminated n \<longrightarrow>
              snd (handle_hlt h mem' sregs regs) = Terminated n) \<and>
         (\<forall>s r m. snd (handle_hlt h mem sregs regs) = Resume s r m \<longrightarrow>
              (\<exists>m'. snd (handle_hlt h mem' sregs regs) = Resume s r m'))"
proof (cases "is_magic_hlt sregs regs")
  case False
  then show ?thesis by (simp add: handle_hlt_def)
next
  case True
  have f1: "read16 mem' (csip_ofs sregs regs) = read16 mem (csip_ofs sregs regs)"
    using agree csip_ofs_bound [of sregs regs] by (intro read16_agree) simp_all
  have f2: "read16 mem' (csip_ofs sregs regs + 2) = read16 mem (csip_ofs sregs regs + 2)"
    using agree csip_ofs_bound [of sregs regs] by (intro read16_agree) simp_all
  obtain io hd where ih: "int_handler h mem sregs regs = (io, hd)"
    by (cases "int_handler h mem sregs regs")
  show ?thesis
  proof (cases hd)
    case (Exit n)
    with ih int_handler_agree [OF agree, of h sregs regs]
    have "int_handler h mem' sregs regs = (io, Exit n)"
      by (cases "int_handler h mem' sregs regs") simp
    with ih Exit True show ?thesis
      by (simp add: handle_hlt_Exit)
  next
    case (Continue r m)
    with ih int_handler_agree [OF agree, of h sregs regs]
    obtain m' where "int_handler h mem' sregs regs = (io, Continue r m')"
      by (cases "int_handler h mem' sregs regs") auto
    with ih Continue True f1 f2 show ?thesis
      by (simp add: handle_hlt_Continue)
  qed
qed

text \<open>
  C3. For every state of the registers: the return frame is read at offset
  \<^verbatim>\<open>SS*16 + SP\<close> (SP the low 16 bits of \<^verbatim>\<open>rsp\<close>) and its 6 bytes end within the arena;
  the buffer of AH=0x3F and AH=0x40 is at \<^verbatim>\<open>DS*16 + DX\<close> and its CX bytes end within the
  arena; every offset \<^verbatim>\<open>DS*16 + off\<close> that the 16-bit index of the AH=0x09 scan can reach
  is within the arena; every host read or write on guest memory that the dispatcher issues,
  with the full length it asks for, is within the arena; and what the dispatcher does (its
  host calls, its exit status, the registers it resumes with) is the same for any two
  memories that agree on the arena, so no byte outside the arena is read.
\<close>

theorem guest_memory_in_arena:
  "csip_ofs sregs regs = 16 * unat (selector (ss sregs)) + unat (low16 (rsp regs)) \<and>
   csip_ofs sregs regs + 6 \<le> MEM_SIZE \<and>
   dsdx_ofs sregs regs = 16 * unat (selector (ds sregs)) + unat (low16 (rdx regs)) \<and>
   dsdx_ofs sregs regs + unat (low16 (rcx regs)) \<le> MEM_SIZE \<and>
   (\<forall>off :: 16 word. unat (seg_ofs (ds sregs)) = 16 * unat (selector (ds sregs)) \<and>
        unat (seg_ofs (ds sregs)) + unat off < MEM_SIZE) \<and>
   (\<forall>e \<in> set (fst (handle_exit reason h mem sregs regs)).
      \<forall>fd a n. e = WriteMem fd a n \<or> e = ReadMem fd a n \<longrightarrow> a + n \<le> MEM_SIZE) \<and>
   (\<forall>mem'. (\<forall>a. a < MEM_SIZE \<longrightarrow> mem' a = mem a) \<longrightarrow>
      fst (handle_hlt h mem' sregs regs) = fst (handle_hlt h mem sregs regs) \<and>
      (\<forall>n. snd (handle_hlt h mem sregs regs) = Terminated n \<longrightarrow>
           snd (handle_hlt h mem' sregs regs) = Terminated n) \<and>
      (\<forall>s r m. snd (handle_hlt h mem sregs regs) = Resume s r m \<longrightarrow>
           (\<exists>m'. snd (handle_hlt h mem' sregs regs) = Resume s r m')))"
proof (intro conjI allI ballI impI)
  show "csip_ofs sregs regs = 16 * unat (selector (ss sregs)) + unat (low16 (rsp regs))"
    by (rule csip_ofs_eq)
  show "csip_ofs sregs regs + 6 \<le> MEM_SIZE"
    by (rule csip_ofs_bound)
  show "dsdx_ofs sregs regs = 16 * unat (selector (ds sregs)) + unat (low16 (rdx regs))"
    by (rule dsdx_ofs_eq)
  show "dsdx_ofs sregs regs + unat (low16 (rcx regs)) \<le> MEM_SIZE"
    by (rule dsdx_ofs_bound)
  show "unat (seg_ofs (ds sregs)) = 16 * unat (selector (ds sregs))"
    by (rule unat_seg_ofs)
  show "unat (seg_ofs (ds sregs)) + unat off < MEM_SIZE" for off :: "16 word"
    by (rule ds_offset_bound)
  show "a + n \<le> MEM_SIZE"
    if "e \<in> set (fst (handle_exit reason h mem sregs regs))"
      and "e = WriteMem fd a n \<or> e = ReadMem fd a n" for e fd a n
    using that by (rule handle_exit_io_bound)
next
  fix mem' :: memory
  assume agree: "\<forall>a. a < MEM_SIZE \<longrightarrow> mem' a = mem a"
  note r = handle_hlt_agree [OF agree, of h sregs regs]
  from r show "fst (handle_hlt h mem' sregs regs) = fst (handle_hlt h mem sregs regs)"
    by simp
  from r show "snd (handle_hlt h mem' sregs regs) = Terminated n"
    if "snd (handle_hlt h mem sregs regs) = Terminated n" for n
    using that by simp
  from r show "\<exists>m'. snd (handle_hlt h mem' sregs regs) = Resume s r m'"
    if "snd (handle_hlt h mem sregs regs) = Resume s r m" for s r m
    using that by blast
qed


lemma top_write:
  "handle_exit KVM_EXIT_HLT quiet_host blank_memory top_sregs (int21_regs 0x4000 1 0xFFFF 0xFFFF 2)
     = ([WriteMem 1 0x10FFEF 0xFFFF],
        Resume (top_sregs\<lparr>cs := \<lparr>selector = 0, base = 0\<rparr>\<rparr>)
          ((int21_regs 0x4000 1 0xFFFF 0xFFFF 2)\<lparr>rax := 0, rsp := 0xFFFE, rip := 0\<rparr>)
          blank_memory)"
  by (simp add: handle_exit_def handle_hlt_def is_magic_hlt_def int_handler_def int_num_of_def
      ah_of_def al_of_def dl_of_def int21_write_def remap_fd_def dsdx_ofs_def
      return_from_int_def csip_ofs_def seg_ofs_def com_segment_def
      read16_def blank_memory_def SET_SEGMENT_REG_def int_sregs_def top_sregs_def quiet_host_def
      int21_regs_def set_low32_def set_low16_def low32_def low16_def mask_eq_exp_minus_1 Let_def)

theorem guest_memory_in_arena_witness:
  "WriteMem 1 0x10FFEF 0xFFFF \<in> set (fst (handle_exit KVM_EXIT_HLT quiet_host blank_memory
       top_sregs (int21_regs 0x4000 1 0xFFFF 0xFFFF 2))) \<and>
   0x10FFEF + 0xFFFF \<le> MEM_SIZE \<and>
   fst (handle_hlt quiet_host (blank_memory(MEM_SIZE := 0x24)) top_sregs
          (int21_regs 0x4000 1 0xFFFF 0xFFFF 2))
     = fst (handle_hlt quiet_host blank_memory top_sregs (int21_regs 0x4000 1 0xFFFF 0xFFFF 2))"
proof -
  have m: "WriteMem 1 0x10FFEF 0xFFFF \<in> set (fst (handle_exit KVM_EXIT_HLT quiet_host blank_memory
       top_sregs (int21_regs 0x4000 1 0xFFFF 0xFFFF 2)))"
    by (simp add: top_write)
  have a: "\<forall>a. a < MEM_SIZE \<longrightarrow> (blank_memory(MEM_SIZE := 0x24)) a = blank_memory a"
    by simp
  from guest_memory_in_arena [of top_sregs "int21_regs 0x4000 1 0xFFFF 0xFFFF 2"
      KVM_EXIT_HLT quiet_host blank_memory] m a
  show ?thesis by blast
qed

section \<open>The print service\<close>

text \<open>
  C8. For AH=0x09 and any DS and DX: when the first \<^verbatim>\<open>$\<close> at or after offset DX of the
  segment DS is at offset \<open>k\<close>, the handler issues one host write on descriptor 1 of the
  \<open>k - DX\<close> bytes from \<^verbatim>\<open>DS:DX\<close>, the bytes before the \<^verbatim>\<open>$\<close>, and returns to the guest
  (with the \<^verbatim>\<open>$\<close> at 0xFFFF and DX=0 these are 0xFFFF bytes); when no offset from DX to
  0xFFFF holds a \<^verbatim>\<open>$\<close> the index wraps and the process ends with status 252, with no
  write but the diagnostic.
\<close>

theorem print_string:
  assumes magic: "is_magic_hlt sregs regs" and int21: "int_num_of regs = 0x21"
      and ah: "ah_of regs = 0x09"
  shows "(\<forall>k. unat (low16 (rdx regs)) \<le> k \<and> k < 65536 \<and>
              mem (16 * unat (selector (ds sregs)) + k) = 0x24 \<and>
              (\<forall>j. unat (low16 (rdx regs)) \<le> j \<and> j < k \<longrightarrow>
                   mem (16 * unat (selector (ds sregs)) + j) \<noteq> 0x24) \<longrightarrow>
            (\<exists>s' r'. handle_hlt h mem sregs regs
               = ([WriteMem 1 (16 * unat (selector (ds sregs)) + unat (low16 (rdx regs)))
                     (k - unat (low16 (rdx regs)))],
                  Resume s' r' mem))) \<and>
         ((\<forall>j. unat (low16 (rdx regs)) \<le> j \<and> j < 65536 \<longrightarrow>
                mem (16 * unat (selector (ds sregs)) + j) \<noteq> 0x24) \<longrightarrow>
            handle_hlt h mem sregs regs
              = ([Diag ''fatal: !! offset overflow in print''], Terminated 252))"
proof (intro conjI allI impI)
  fix k
  assume k: "unat (low16 (rdx regs)) \<le> k \<and> k < 65536 \<and>
              mem (16 * unat (selector (ds sregs)) + k) = 0x24 \<and>
              (\<forall>j. unat (low16 (rdx regs)) \<le> j \<and> j < k \<longrightarrow>
                   mem (16 * unat (selector (ds sregs)) + j) \<noteq> 0x24)"
  then have "print_scan mem (unat (seg_ofs (ds sregs))) (low16 (rdx regs)) = Some (of_nat k)"
    by (intro print_scan_found) (simp_all add: unat_seg_ofs)
  moreover from k have "unat (of_nat k :: 16 word) = k"
    by (simp add: unat_of_nat)
  ultimately show "\<exists>s' r'. handle_hlt h mem sregs regs
               = ([WriteMem 1 (16 * unat (selector (ds sregs)) + unat (low16 (rdx regs)))
                     (k - unat (low16 (rdx regs)))],
                  Resume s' r' mem)"
    by (simp add: hlt_print_found [OF magic int21 ah] unat_seg_ofs)
next
  assume "\<forall>j. unat (low16 (rdx regs)) \<le> j \<and> j < 65536 \<longrightarrow>
                mem (16 * unat (selector (ds sregs)) + j) \<noteq> 0x24"
  then have "print_scan mem (unat (seg_ofs (ds sregs))) (low16 (rdx regs)) = None"
    by (intro print_scan_wrap) (simp add: unat_seg_ofs)
  then show "handle_hlt h mem sregs regs
              = ([Diag ''fatal: !! offset overflow in print''], Terminated 252)"
    by (rule hlt_print_wrap [OF magic int21 ah])
qed

lemma ds_int_sregs: "unat (selector (ds int_sregs)) = 0x100"
  by (simp add: int_sregs_def com_segment_def)

theorem print_string_witness:
  "(\<exists>s' r'. handle_hlt quiet_host dollar_at_end int_sregs (int21_regs 0x0900 0 0 0 2)
       = ([WriteMem 1 0x1000 0xFFFF], Resume s' r' dollar_at_end)) \<and>
   handle_hlt quiet_host blank_memory int_sregs (int21_regs 0x0900 0 0 0 2)
     = ([Diag ''fatal: !! offset overflow in print''], Terminated 252)"
proof
  have "unat (low16 (rdx (int21_regs 0x0900 0 0 0 2))) \<le> 65535 \<and> (65535 :: nat) < 65536 \<and>
      dollar_at_end (16 * unat (selector (ds int_sregs)) + 65535) = 0x24 \<and>
      (\<forall>j. unat (low16 (rdx (int21_regs 0x0900 0 0 0 2))) \<le> j \<and> j < 65535 \<longrightarrow>
           dollar_at_end (16 * unat (selector (ds int_sregs)) + j) \<noteq> 0x24)"
    by (simp add: int21_regs_decode low16_def ds_int_sregs dollar_at_end_def)
  with print_string [of int_sregs "int21_regs 0x0900 0 0 0 2" dollar_at_end quiet_host,
      OF int21_regs_decode(1,2) ah_of_int21_regs(5), THEN conjunct1, rule_format, of 65535]
  show "\<exists>s' r'. handle_hlt quiet_host dollar_at_end int_sregs (int21_regs 0x0900 0 0 0 2)
       = ([WriteMem 1 0x1000 0xFFFF], Resume s' r' dollar_at_end)"
    by (simp add: int21_regs_decode low16_def ds_int_sregs)
next
  have "\<forall>j. unat (low16 (rdx (int21_regs 0x0900 0 0 0 2))) \<le> j \<and> j < 65536 \<longrightarrow>
      blank_memory (16 * unat (selector (ds int_sregs)) + j) \<noteq> 0x24"
    by (simp add: blank_memory_def)
  with print_string [of int_sregs "int21_regs 0x0900 0 0 0 2" blank_memory quiet_host,
      OF int21_regs_decode(1,2) ah_of_int21_regs(5)]
  show "handle_hlt quiet_host blank_memory int_sregs (int21_regs 0x0900 0 0 0 2)
     = ([Diag ''fatal: !! offset overflow in print''], Terminated 252)"
    by blast
qed

section \<open>The command line tail\<close>

lemma memcpy_to_apply:
  "memcpy_to mem a bs x = (if a \<le> x \<and> x < a + length bs then bs ! (x - a) else mem x)"
proof (induction bs arbitrary: mem a)
  case Nil
  show ?case by auto
next
  case (Cons b bs)
  have "memcpy_to (mem(a := b)) (a + 1) bs x
      = (if a + 1 \<le> x \<and> x < a + 1 + length bs then bs ! (x - (a + 1)) else (mem(a := b)) x)"
    by (rule Cons.IH)
  then show ?case
    by (cases "x = a") (auto simp: nth_Cons' )
qed

lemma memcpy_to_append:
  "memcpy_to mem a (xs @ ys) = memcpy_to (memcpy_to mem a xs) (a + length xs) ys"
  by (induction xs arbitrary: mem a) simp_all

lemma encoded_tail_Cons: "encoded_tail (arg # args) = (0x20 # arg) @ encoded_tail args"
  by (simp add: encoded_tail_def)

lemma encoded_length_Nil: "encoded_length [] = 0"
  by (simp add: encoded_length_def encoded_tail_def)

lemma encoded_length_Cons: "encoded_length (arg # args) = Suc (length arg) + encoded_length args"
  by (simp add: encoded_length_def encoded_tail_def)

lemma unat_strlen: "n < 2 ^ 32 \<Longrightarrow> unat (word_of_nat n :: 32 word) = n"
  by (simp add: unat_of_nat)

lemma args_check:
  fixes sz arg_size :: "32 word"
  assumes "unat sz \<le> 128"
  shows "(sz + arg_size < sz \<or> sz + arg_size > 127) = (127 < unat sz + unat arg_size)"
proof (cases "unat sz + unat arg_size < 2 ^ 32")
  case True
  then have "unat (sz + arg_size) = unat sz + unat arg_size"
    by (simp add: unat_plus_if')
  then show ?thesis
    by (simp add: word_less_nat_alt)
next
  case False
  then have "unat (sz + arg_size) = unat sz + unat arg_size - 2 ^ 32"
    by (simp add: unat_plus_if')
  moreover have "unat arg_size < 2 ^ 32"
    using unsigned_less [of arg_size, where 'a = nat] by simp
  ultimately have "unat (sz + arg_size) < unat sz"
    using False by simp
  with False assms show ?thesis
    by (simp add: word_less_nat_alt)
qed

lemma args_step:
  fixes sz arg_size :: "32 word"
  assumes "unat sz + unat arg_size \<le> 127"
  shows "unat (sz + 1) = unat sz + 1" and "unat (sz + 1 + arg_size) = unat sz + 1 + unat arg_size"
proof -
  from assms show a: "unat (sz + 1) = unat sz + 1"
    by (simp add: unat_plus_if')
  from assms show "unat (sz + 1 + arg_size) = unat sz + 1 + unat arg_size"
    by (simp add: unat_plus_if' [of "sz + 1" arg_size] a)
qed

lemma copy_args_loop_ok:
  "\<forall>arg \<in> set args. length arg < 2 ^ 32 \<Longrightarrow> unat sz + encoded_length args \<le> 128 \<Longrightarrow>
   copy_args_loop mem p sz args
     = Inr (memcpy_to mem (p + unat sz) (encoded_tail args), sz + of_nat (encoded_length args))"
proof (induction args arbitrary: mem sz)
  case Nil
  show ?case by (simp add: encoded_tail_def encoded_length_def)
next
  case (Cons arg args)
  let ?n = "word_of_nat (length arg) :: 32 word"
  from Cons.prems have len: "unat ?n = length arg"
    by (simp add: unat_strlen)
  from Cons.prems have fit: "unat sz + unat ?n \<le> 127"
    by (simp add: len encoded_length_Cons)
  then have sz128: "unat sz \<le> 128" by simp
  note st = args_step [OF fit]
  have rest: "unat (sz + 1 + ?n) + encoded_length args \<le> 128"
    using Cons.prems by (simp add: st len encoded_length_Cons)
  have "copy_args_loop mem p sz (arg # args)
      = copy_args_loop (memcpy_to (mem(p + unat sz := 0x20)) (p + unat (sz + 1)) arg)
          p (sz + 1 + ?n) args"
    using fit by (simp add: args_check [OF sz128] Let_def len)
  also have "memcpy_to (mem(p + unat sz := 0x20)) (p + unat (sz + 1)) arg
      = memcpy_to mem (p + unat sz) (0x20 # arg)"
    by (simp add: st)
  also have "copy_args_loop (memcpy_to mem (p + unat sz) (0x20 # arg)) p (sz + 1 + ?n) args
      = Inr (memcpy_to (memcpy_to mem (p + unat sz) (0x20 # arg)) (p + unat (sz + 1 + ?n))
               (encoded_tail args),
             sz + 1 + ?n + of_nat (encoded_length args))"
    using Cons.prems rest by (intro Cons.IH) simp_all
  also have "memcpy_to (memcpy_to mem (p + unat sz) (0x20 # arg)) (p + unat (sz + 1 + ?n))
               (encoded_tail args)
      = memcpy_to mem (p + unat sz) (encoded_tail (arg # args))"
  proof -
    have "p + unat (sz + 1 + ?n) = p + unat sz + length (0x20 # arg)"
      by (simp add: st len)
    then show ?thesis
      by (simp only: encoded_tail_Cons memcpy_to_append)
  qed
  also have "sz + 1 + ?n + of_nat (encoded_length args) = sz + of_nat (encoded_length (arg # args))"
    by (simp add: encoded_length_Cons)
  finally show ?case .
qed

lemma copy_args_loop_fatal:
  "\<forall>arg \<in> set args. length arg < 2 ^ 32 \<Longrightarrow> unat sz \<le> 128 \<Longrightarrow>
   128 < unat sz + encoded_length args \<Longrightarrow> copy_args_loop mem p sz args = Inl 252"
proof (induction args arbitrary: mem sz)
  case Nil
  then show ?case by (simp add: encoded_length_Nil)
next
  case (Cons arg args)
  let ?n = "word_of_nat (length arg) :: 32 word"
  from Cons.prems have len: "unat ?n = length arg"
    by (simp add: unat_strlen)
  show ?case
  proof (cases "127 < unat sz + unat ?n")
    case True
    then show ?thesis
      by (simp add: args_check [OF Cons.prems(2)] Let_def)
  next
    case False
    then have fit: "unat sz + unat ?n \<le> 127" by simp
    note st = args_step [OF fit]
    have "copy_args_loop (memcpy_to (mem(p + unat sz := 0x20)) (p + unat (sz + 1)) arg)
          p (sz + 1 + ?n) args = Inl 252"
      using Cons.prems fit by (intro Cons.IH) (simp_all add: st len encoded_length_Cons)
    with False show ?thesis
      by (simp add: args_check [OF Cons.prems(2)] Let_def len)
  qed
qed


lemma copy_args_ok:
  assumes "\<forall>arg \<in> set args. length arg < 2 ^ 32" and "encoded_length args \<le> 127"
  shows "copy_args_to_dos_args mem p args
       = Inr ((memcpy_to mem (p + 1) (encoded_tail args))
                (p + 1 + encoded_length args := 0x0D, p := of_nat (encoded_length args)))"
proof -
  let ?L = "encoded_length args"
  have loop: "copy_args_loop mem p 1 args
      = Inr (memcpy_to mem (p + unat (1 :: 32 word)) (encoded_tail args), 1 + of_nat ?L)"
    using assms by (intro copy_args_loop_ok) simp_all
  have sz: "unat (1 + word_of_nat ?L :: 32 word) = 1 + ?L"
    using assms(2) by (simp add: unat_plus_if' unat_of_nat)
  have len: "(ucast (word_of_nat ?L :: 32 word) :: byte) = of_nat ?L"
    by transfer (simp add: take_bit_of_nat min_def)
  show ?thesis
    by (simp add: copy_args_to_dos_args_def loop sz len)
qed

lemma copy_args_fatal:
  assumes "\<forall>arg \<in> set args. length arg < 2 ^ 32" and "127 < encoded_length args"
  shows "copy_args_to_dos_args mem p args = Inl 252"
proof -
  have "copy_args_loop mem p 1 args = Inl 252"
    using assms by (intro copy_args_loop_fatal) simp_all
  then show ?thesis
    by (simp add: copy_args_to_dos_args_def)
qed

lemma load_loop_status: "load_loop mem p rs = Inl status \<Longrightarrow> status = 252"
  by (induction mem p rs rule: load_loop.induct) (auto split: if_splits)

lemma load_guest_status: "load_guest img mem = Inl status \<Longrightarrow> status = 252"
  by (auto simp: load_guest_def split: option.splits dest: load_loop_status)

lemma load_loop_below: "load_loop mem p rs = Inr m \<Longrightarrow> x < p \<Longrightarrow> m x = mem x"
proof (induction mem p rs rule: load_loop.induct)
  case (1 mem p)
  then show ?case by simp
next
  case (2 mem p rs)
  then show ?case by simp
next
  case (3 mem p bs rs)
  show ?case
  proof (cases "bs = []")
    case True
    with "3.prems" show ?thesis by simp
  next
    case False
    with "3.prems" have "load_loop (memcpy_to mem p bs) (p + length bs) rs = Inr m"
      by simp
    with False "3.prems" have "m x = memcpy_to mem p bs x"
      by (intro "3.IH") simp_all
    with "3.prems" show ?thesis
      by (simp add: memcpy_to_apply)
  qed
qed

lemma load_guest_first_byte:
  assumes "load_guest (Some (Read_bytes (b # bs) # rs)) mem = Inr m"
  shows "m IMAGE_OFS = b"
proof -
  from assms
  have "load_loop (memcpy_to mem IMAGE_OFS (b # bs)) (IMAGE_OFS + length (b # bs)) rs = Inr m"
    by (simp add: load_guest_def)
  then have "m IMAGE_OFS = memcpy_to mem IMAGE_OFS (b # bs) IMAGE_OFS"
    by (rule load_loop_below) simp
  then show ?thesis
    by (simp add: memcpy_to_apply)
qed

lemma PSP_val: "push_bit 4 BASE_PARA = 4096"
  by (simp add: BASE_PARA_def push_bit_eq_mult)

lemma IMAGE_OFS_val: "IMAGE_OFS = 4352"
  by (simp add: IMAGE_OFS_def PSP_val)

lemma bootstrap_fatal:
  assumes "\<forall>arg \<in> set args. length arg < 2 ^ 32" and "127 < encoded_length args"
  shows "bootstrap img args mem0 = Inl 252"
proof (cases "load_guest img mem0")
  case (Inl status)
  then have "status = 252"
    by (rule load_guest_status)
  with Inl show ?thesis by (simp add: bootstrap_def)
next
  case (Inr mem1)
  then show ?thesis
    by (simp add: bootstrap_def Let_def copy_args_fatal [OF assms])
qed

lemma bootstrap_ok:
  assumes "\<forall>arg \<in> set args. length arg < 2 ^ 32" and "encoded_length args \<le> 127"
      and "load_guest img mem0 = Inr mem1"
  shows "\<exists>mem6. bootstrap img args mem0
       = Inr ((memcpy_to mem6 (push_bit 4 BASE_PARA + 0x81) (encoded_tail args))
                (push_bit 4 BASE_PARA + 0x81 + encoded_length args := 0x0D,
                 push_bit 4 BASE_PARA + 0x80 := of_nat (encoded_length args)))"
proof -
  define mem6 where "mem6 =
    (store16 (store16 (store16 (memset_to (fill_vectors mem1 0) 0x400 0xf4 256)
        (push_bit 4 BASE_PARA + 0xfffe) 0) (push_bit 4 BASE_PARA) 0x20cd)
      (push_bit 4 BASE_PARA + 2) 0xa000)(push_bit 4 BASE_PARA + 0x80 := 0)"
  have "bootstrap img args mem0 = copy_args_to_dos_args mem6 (push_bit 4 BASE_PARA + 0x80) args"
    using assms(3) by (simp add: bootstrap_def Let_def mem6_def)
  also have "\<dots> = Inr ((memcpy_to mem6 (push_bit 4 BASE_PARA + 0x81) (encoded_tail args))
                (push_bit 4 BASE_PARA + 0x81 + encoded_length args := 0x0D,
                 push_bit 4 BASE_PARA + 0x80 := of_nat (encoded_length args)))"
    by (simp add: copy_args_ok [OF assms(1,2)] PSP_val)
  finally show ?thesis by blast
qed

lemma encoded_length_replicate: "encoded_length [replicate n c] = Suc n"
  by (simp add: encoded_length_def encoded_tail_def)

text \<open>
  C9. For arguments that a process can be started with (each shorter than \<open>2 ^ 32\<close>
  bytes, so that the conversion of \<^verbatim>\<open>strlen\<close> to \<^verbatim>\<open>unsigned\<close> keeps the length): when
  the encoded tail, every argument preceded by one space, has at most 127 bytes,
  \<^verbatim>\<open>copy_args_to_dos_args\<close> returns, with the length of the tail in the byte at \<^verbatim>\<open>p\<close>,
  the tail after it and 0x0D after the tail, the terminator not counted in the length; in
  the bootstrap \<^verbatim>\<open>p\<close> is offset 0x80 of the PSP, and the bootstrap goes on when the image
  was loaded. When the encoded tail has 128 bytes or more the process ends with status 252,
  in the bootstrap, before the first \<^verbatim>\<open>KVM_RUN\<close>.
\<close>

theorem command_line_limit:
  assumes lens: "\<forall>arg \<in> set args. length arg < 2 ^ 32"
  shows "(encoded_length args \<le> 127 \<longrightarrow>
            (\<exists>m. copy_args_to_dos_args mem p args = Inr m \<and>
                 m p = of_nat (encoded_length args) \<and>
                 (\<forall>i < encoded_length args. m (p + 1 + i) = encoded_tail args ! i) \<and>
                 m (p + 1 + encoded_length args) = 0x0D)) \<and>
         (encoded_length args \<le> 127 \<and> load_guest img mem0 = Inr mem1 \<longrightarrow>
            (\<exists>m. bootstrap img args mem0 = Inr m \<and>
                 m (push_bit 4 BASE_PARA + 0x80) = of_nat (encoded_length args) \<and>
                 (\<forall>i < encoded_length args.
                      m (push_bit 4 BASE_PARA + 0x81 + i) = encoded_tail args ! i) \<and>
                 m (push_bit 4 BASE_PARA + 0x81 + encoded_length args) = 0x0D)) \<and>
         (127 < encoded_length args \<longrightarrow>
            copy_args_to_dos_args mem p args = Inl 252 \<and> bootstrap img args mem0 = Inl 252)"
proof (intro conjI impI)
  assume "encoded_length args \<le> 127"
  then show "\<exists>m. copy_args_to_dos_args mem p args = Inr m \<and>
                 m p = of_nat (encoded_length args) \<and>
                 (\<forall>i < encoded_length args. m (p + 1 + i) = encoded_tail args ! i) \<and>
                 m (p + 1 + encoded_length args) = 0x0D"
    by (simp add: copy_args_ok [OF lens] memcpy_to_apply encoded_length_def)
next
  assume a: "encoded_length args \<le> 127 \<and> load_guest img mem0 = Inr mem1"
  then obtain mem6 where "bootstrap img args mem0
       = Inr ((memcpy_to mem6 (push_bit 4 BASE_PARA + 0x81) (encoded_tail args))
                (push_bit 4 BASE_PARA + 0x81 + encoded_length args := 0x0D,
                 push_bit 4 BASE_PARA + 0x80 := of_nat (encoded_length args)))"
    using bootstrap_ok [OF lens] by blast
  then show "\<exists>m. bootstrap img args mem0 = Inr m \<and>
                 m (push_bit 4 BASE_PARA + 0x80) = of_nat (encoded_length args) \<and>
                 (\<forall>i < encoded_length args.
                      m (push_bit 4 BASE_PARA + 0x81 + i) = encoded_tail args ! i) \<and>
                 m (push_bit 4 BASE_PARA + 0x81 + encoded_length args) = 0x0D"
    by (simp add: memcpy_to_apply encoded_length_def)
next
  assume "127 < encoded_length args"
  then show "copy_args_to_dos_args mem p args = Inl 252"
    by (rule copy_args_fatal [OF lens])
next
  assume "127 < encoded_length args"
  then show "bootstrap img args mem0 = Inl 252"
    by (rule bootstrap_fatal [OF lens])
qed

theorem command_line_limit_witness:
  "encoded_length [replicate 126 0x41] \<le> 127 \<and>
   (\<exists>m. copy_args_to_dos_args blank_memory 0x1080 [replicate 126 0x41] = Inr m \<and>
        m 0x1080 = of_nat (encoded_length [replicate 126 0x41]) \<and>
        m (0x1080 + 1 + encoded_length [replicate 126 0x41]) = 0x0D) \<and>
   127 < encoded_length [replicate 127 0x41] \<and>
   copy_args_to_dos_args blank_memory 0x1080 [replicate 127 0x41] = Inl 252 \<and>
   bootstrap None [replicate 127 0x41] blank_memory = Inl 252"
proof -
  have lens: "\<forall>arg \<in> set [replicate 126 (0x41 :: byte)]. length arg < 2 ^ 32"
    "\<forall>arg \<in> set [replicate 127 (0x41 :: byte)]. length arg < 2 ^ 32"
    by simp_all
  have l: "encoded_length [replicate 126 (0x41 :: byte)] \<le> 127"
    "127 < encoded_length [replicate 127 (0x41 :: byte)]"
    by (simp_all add: encoded_length_replicate)
  from command_line_limit [OF lens(1), where mem = blank_memory and p = "0x1080"] l(1)
  have "\<exists>m. copy_args_to_dos_args blank_memory 0x1080 [replicate 126 0x41] = Inr m \<and>
        m 0x1080 = of_nat (encoded_length [replicate 126 0x41]) \<and>
        m (0x1080 + 1 + encoded_length [replicate 126 0x41]) = 0x0D"
    by blast
  moreover from command_line_limit [OF lens(2), where mem = blank_memory and p = "0x1080" and img = None
      and ?mem0.0 = blank_memory] l(2)
  have "copy_args_to_dos_args blank_memory 0x1080 [replicate 127 0x41] = Inl 252 \<and>
      bootstrap None [replicate 127 0x41] blank_memory = Inl 252"
    by blast
  ultimately show ?thesis
    using l by blast
qed

text \<open>
  C10. The image is loaded at offset 0x100 of the program segment, the byte after the 256
  bytes of the PSP. When the encoded tail has exactly 127 bytes, \<^verbatim>\<open>copy_args_to_dos_args\<close>
  stores the terminator 0x0D at that offset: after the bootstrap the first byte of the
  image, which \<^verbatim>\<open>load_guest\<close> had stored there, is 0x0D. When the encoded tail has at most
  126 bytes, \<^verbatim>\<open>copy_args_to_dos_args\<close> changes no byte outside the 256 bytes of the PSP.
\<close>

theorem maximal_tail_hits_image:
  assumes lens: "\<forall>arg \<in> set args. length arg < 2 ^ 32"
  shows "(encoded_length args = 127 \<longrightarrow>
            IMAGE_OFS = push_bit 4 BASE_PARA + 0x100 \<and>
            (\<exists>m. copy_args_to_dos_args mem (push_bit 4 BASE_PARA + 0x80) args = Inr m \<and>
                 m (push_bit 4 BASE_PARA + 0x100) = 0x0D) \<and>
            (\<forall>b bs rs mem1. load_guest (Some (Read_bytes (b # bs) # rs)) mem0 = Inr mem1 \<longrightarrow>
               mem1 IMAGE_OFS = b \<and>
               (\<exists>m. bootstrap (Some (Read_bytes (b # bs) # rs)) args mem0 = Inr m \<and>
                    m IMAGE_OFS = 0x0D))) \<and>
         (encoded_length args \<le> 126 \<longrightarrow>
            (\<exists>m. copy_args_to_dos_args mem (push_bit 4 BASE_PARA + 0x80) args = Inr m \<and>
                 (\<forall>x. x < push_bit 4 BASE_PARA \<or> push_bit 4 BASE_PARA + 0x100 \<le> x \<longrightarrow>
                      m x = mem x)))"
proof (intro conjI impI allI)
  show "IMAGE_OFS = push_bit 4 BASE_PARA + 0x100"
    by (simp add: IMAGE_OFS_def)
next
  assume "encoded_length args = 127"
  then show "\<exists>m. copy_args_to_dos_args mem (push_bit 4 BASE_PARA + 0x80) args = Inr m \<and>
      m (push_bit 4 BASE_PARA + 0x100) = 0x0D"
    by (simp add: copy_args_ok [OF lens])
next
  fix b bs rs mem1
  assume "load_guest (Some (Read_bytes (b # bs) # rs)) mem0 = Inr mem1"
  then show "mem1 IMAGE_OFS = b"
    by (rule load_guest_first_byte)
next
  fix b bs rs mem1
  assume L: "encoded_length args = 127"
    and "load_guest (Some (Read_bytes (b # bs) # rs)) mem0 = Inr mem1"
  with bootstrap_ok [OF lens, of "Some (Read_bytes (b # bs) # rs)" mem0 mem1]
  obtain mem6 where "bootstrap (Some (Read_bytes (b # bs) # rs)) args mem0
       = Inr ((memcpy_to mem6 (push_bit 4 BASE_PARA + 0x81) (encoded_tail args))
                (push_bit 4 BASE_PARA + 0x81 + encoded_length args := 0x0D,
                 push_bit 4 BASE_PARA + 0x80 := of_nat (encoded_length args)))"
    by auto
  with L show "\<exists>m. bootstrap (Some (Read_bytes (b # bs) # rs)) args mem0 = Inr m \<and>
      m IMAGE_OFS = 0x0D"
    by (simp add: IMAGE_OFS_def)
next
  assume "encoded_length args \<le> 126"
  then show "\<exists>m. copy_args_to_dos_args mem (push_bit 4 BASE_PARA + 0x80) args = Inr m \<and>
      (\<forall>x. x < push_bit 4 BASE_PARA \<or> push_bit 4 BASE_PARA + 0x100 \<le> x \<longrightarrow> m x = mem x)"
    by (auto simp: copy_args_ok [OF lens] memcpy_to_apply encoded_length_def)
qed


lemma load_ret:
  "load_guest (Some [Read_bytes [0xC3]]) blank_memory = Inr (blank_memory(IMAGE_OFS := 0xC3))"
  by (simp add: load_guest_def)

theorem maximal_tail_hits_image_witness:
  "encoded_length [replicate 126 0x41] = 127 \<and>
   load_guest (Some [Read_bytes [0xC3]]) blank_memory = Inr (blank_memory(IMAGE_OFS := 0xC3)) \<and>
   (blank_memory(IMAGE_OFS := 0xC3)) IMAGE_OFS = 0xC3 \<and>
   (\<exists>m. bootstrap (Some [Read_bytes [0xC3]]) [replicate 126 0x41] blank_memory = Inr m \<and>
        m IMAGE_OFS = 0x0D) \<and>
   encoded_length [replicate 125 0x41] \<le> 126 \<and>
   (\<exists>m. copy_args_to_dos_args blank_memory (push_bit 4 BASE_PARA + 0x80) [replicate 125 0x41]
          = Inr m \<and> m IMAGE_OFS = blank_memory IMAGE_OFS)"
proof -
  have lens: "\<forall>arg \<in> set [replicate 126 (0x41 :: byte)]. length arg < 2 ^ 32"
    "\<forall>arg \<in> set [replicate 125 (0x41 :: byte)]. length arg < 2 ^ 32"
    by simp_all
  have l: "encoded_length [replicate 126 (0x41 :: byte)] = 127"
    "encoded_length [replicate 125 (0x41 :: byte)] \<le> 126"
    by (simp_all add: encoded_length_replicate)
  from maximal_tail_hits_image [OF lens(1), where mem = blank_memory and ?mem0.0 = blank_memory] l(1) load_ret
  have "\<exists>m. bootstrap (Some [Read_bytes [0xC3]]) [replicate 126 0x41] blank_memory = Inr m \<and>
        m IMAGE_OFS = 0x0D"
    by blast
  moreover from maximal_tail_hits_image [OF lens(2), where mem = blank_memory and ?mem0.0 = blank_memory] l(2)
  have "\<exists>m. copy_args_to_dos_args blank_memory (push_bit 4 BASE_PARA + 0x80) [replicate 125 0x41]
          = Inr m \<and> m IMAGE_OFS = blank_memory IMAGE_OFS"
    by (auto simp: IMAGE_OFS_def)
  ultimately show ?thesis
    using l load_ret by simp
qed

end
